theory Spec2Isabelle
  imports Complex_Main "HOL-Library.Char_ord" "HOL-Library.List_Lexorder" "HOL-Library.Sublist"
    "HOL-Library.Multiset"
begin

section \<open>Python string operations used by the program\<close>

text \<open>
  Strings are ASCII texts. The functions below follow the methods of Python's \<open>str\<close> that
  \<open>main.py\<close> calls: \<open>strip\<close>, \<open>lower\<close>, \<open>title\<close>, \<open>isdigit\<close>, \<open>int\<close> on a string of
  digits, and \<open>split\<close> on the separator \<open>", "\<close>. The exceptions that the program can raise
  and does not catch are the values of \<open>error\<close>.
\<close>

datatype error = ValueError | AttributeError | RegexError | EOFError

definition is_space :: "char \<Rightarrow> bool" where
  \<comment> \<open>\<open>str.isspace\<close> on the ASCII range: tab to carriage return, the four separators, blank\<close>
  "is_space c = (let n = (of_char c :: nat) in (9 \<le> n \<and> n \<le> 13) \<or> (28 \<le> n \<and> n \<le> 32))"

definition strip :: "string \<Rightarrow> string" where
  "strip s = rev (dropWhile is_space (rev (dropWhile is_space s)))"

definition is_upper :: "char \<Rightarrow> bool" where
  "is_upper c = (let n = (of_char c :: nat) in 65 \<le> n \<and> n \<le> 90)"

definition is_lower :: "char \<Rightarrow> bool" where
  "is_lower c = (let n = (of_char c :: nat) in 97 \<le> n \<and> n \<le> 122)"

definition is_cased :: "char \<Rightarrow> bool" where
  "is_cased c = (is_upper c \<or> is_lower c)"

definition lower_char :: "char \<Rightarrow> char" where
  "lower_char c = (if is_upper c then char_of ((of_char c :: nat) + 32) else c)"

definition upper_char :: "char \<Rightarrow> char" where
  "upper_char c = (if is_lower c then char_of ((of_char c :: nat) - 32) else c)"

definition lower :: "string \<Rightarrow> string" where
  "lower s = map lower_char s"

fun title_from :: "bool \<Rightarrow> string \<Rightarrow> string" where
  \<comment> \<open>the flag says whether the previous character was a cased letter\<close>
  "title_from prev [] = []"
| "title_from prev (c # cs) =
     (if prev then lower_char c else upper_char c) # title_from (is_cased c) cs"

definition title :: "string \<Rightarrow> string" where
  "title s = title_from False s"

definition is_digit_char :: "char \<Rightarrow> bool" where
  "is_digit_char c = (let n = (of_char c :: nat) in 48 \<le> n \<and> n \<le> 57)"

definition isdigit :: "string \<Rightarrow> bool" where
  \<comment> \<open>\<open>str.isdigit\<close> on an ASCII text. Beyond ASCII it also holds for digits that are not
      decimal, such as a superscript two, on which \<open>int\<close> raises \<open>ValueError\<close> as well.\<close>
  "isdigit s = (s \<noteq> [] \<and> list_all is_digit_char s)"

definition int_of_digits :: "string \<Rightarrow> nat" where
  \<comment> \<open>the number that a string of decimal digits denotes\<close>
  "int_of_digits s = foldl (\<lambda>acc c. 10 * acc + ((of_char c :: nat) - 48)) 0 s"

definition int_max_str_digits :: nat where
  \<comment> \<open>\<open>sys.int_info.default_max_str_digits\<close>, the limit of Python 3.11 on \<open>int(text)\<close>\<close>
  "int_max_str_digits = 4300"

definition py_int :: "string \<Rightarrow> error + nat" where
  \<comment> \<open>\<open>int(s)\<close> for a string of ASCII digits: \<open>ValueError\<close> when it has more digits than
      the limit\<close>
  "py_int s = (if int_max_str_digits < length s then Inl ValueError else Inr (int_of_digits s))"

fun split_sep :: "string \<Rightarrow> string \<Rightarrow> string list" where
  \<comment> \<open>\<open>s.split(", ")\<close>: the first argument is the piece read so far\<close>
  "split_sep cur [] = [cur]"
| "split_sep cur [c] = [cur @ [c]]"
| "split_sep cur (c # d # cs) =
     (if c = CHR '','' \<and> d = CHR '' '' then cur # split_sep [] cs
      else split_sep (cur @ [c]) (d # cs))"

definition split_comma :: "string \<Rightarrow> string list" where
  "split_comma s = split_sep [] s"

fun join_comma :: "string list \<Rightarrow> string" where
  \<comment> \<open>\<open>", ".join(pieces)\<close>, used to state what the split returns\<close>
  "join_comma [] = []"
| "join_comma [p] = p"
| "join_comma (p # q # ps) = p @ '', '' @ join_comma (q # ps)"

section \<open>The dataset\<close>

text \<open>
  One row of the data frame that \<open>load_data\<close> returns. \<open>pd.read_csv\<close> stores an empty cell of
  a text column as the missing value NaN, which is \<open>None\<close> here, and a cell that is present
  is a text; \<open>IMDB_Rating\<close>, present in every row, and the polarity scores are floats, taken
  as real numbers.
\<close>

record movie =
  Series_Title :: string
  Genre :: "string option"
  Overview :: "string option"
  IMDB_Rating :: real

type_synonym dataset = "movie list"

section \<open>The genre catalog\<close>

definition genre_pieces :: "dataset \<Rightarrow> string list" where
  \<comment> \<open>\<open>genre.strip() for sublist in df['Genre'].dropna().str.split(', ') for genre in sublist\<close>\<close>
  "genre_pieces df =
     concat (map (\<lambda>r. case Genre r of None \<Rightarrow> [] | Some g \<Rightarrow> map strip (split_comma g)) df)"

definition str_refused :: "dataset \<Rightarrow> bool" where
  \<comment> \<open>There are rows and no row has a genre: \<open>read_csv\<close> types such a column as float64, and
      the accessor \<open>.str\<close> of a column that is not of texts raises \<open>AttributeError\<close>.\<close>
  "str_refused df = (df \<noteq> [] \<and> list_all (\<lambda>r. Genre r = None) df)"

definition list_genres :: "dataset \<Rightarrow> error + string list" where
  \<comment> \<open>\<open>sorted(set(...))\<close>\<close>
  "list_genres df =
     (if str_refused df then Inl AttributeError else Inr (sort (remdups (genre_pieces df))))"

section \<open>Library functions taken as parameters\<close>

text \<open>
  Three library calls are parameters of the model, since their code is not part of the program:
  \<^item> \<open>score\<close> is \<open>TextBlob(text).sentiment.polarity\<close>;
  \<^item> \<open>shuffle\<close> is \<open>DataFrame.sample(frac=1)\<close>, which returns the rows in a random order;
    the properties below assume of it only that it permutes the rows;
  \<^item> \<open>re_compile\<close> is Python's regular expression compiler, consulted only for a pattern
    with a regular expression metacharacter; \<open>None\<close> stands for the exception \<open>re.error\<close>.
\<close>

definition regex_special :: "char \<Rightarrow> bool" where
  "regex_special c = (c \<in> set ''.^$*+?{}[]|()'' \<or> c = CHR 0x5C)"

definition plain_pattern :: "string \<Rightarrow> bool" where
  "plain_pattern pat = (\<not> list_ex regex_special pat)"

fun find_ci :: "string \<Rightarrow> string \<Rightarrow> bool" where
  \<comment> \<open>search for a pattern without metacharacters under \<open>re.IGNORECASE\<close>\<close>
  "find_ci pat [] = (pat = [])"
| "find_ci pat (c # cs) = (prefix (lower pat) (lower (c # cs)) \<or> find_ci pat cs)"

definition str_contains ::
  "(string \<Rightarrow> (string \<Rightarrow> bool) option) \<Rightarrow> string \<Rightarrow> error + (string option \<Rightarrow> bool)" where
  \<comment> \<open>\<open>Series.str.contains(pat, case=False, na=False)\<close>: the pattern is a regular expression\<close>
  "str_contains re_compile pat =
     (if plain_pattern pat
      then Inr (\<lambda>cell. case cell of None \<Rightarrow> False | Some s \<Rightarrow> find_ci pat s)
      else case re_compile pat of
             None \<Rightarrow> Inl RegexError
           | Some matcher \<Rightarrow> Inr (\<lambda>cell. case cell of None \<Rightarrow> False | Some s \<Rightarrow> matcher s))"

section \<open>Recommending movies\<close>

type_synonym recommendation = "string \<times> real"

datatype result = Recommendations "recommendation list" | Message string

definition no_recommendations :: string where
  "no_recommendations = ''No suitable movie recommendations found.''"

fun genre_filter ::
  "(string \<Rightarrow> (string \<Rightarrow> bool) option) \<Rightarrow> string option \<Rightarrow> dataset \<Rightarrow> error + dataset" where
  \<comment> \<open>\<open>if genre:\<close> holds for a string that is neither \<open>None\<close> nor empty\<close>
  "genre_filter re_compile None df = Inr df"
| "genre_filter re_compile (Some genre) df =
     (if genre = [] then Inr df
      else if str_refused df then Inl AttributeError
      else case str_contains re_compile genre of
             Inl e \<Rightarrow> Inl e
           | Inr hit \<Rightarrow> Inr (filter (\<lambda>row. hit (Genre row)) df))"

fun rating_filter :: "real option \<Rightarrow> dataset \<Rightarrow> dataset" where
  \<comment> \<open>\<open>if rating:\<close> holds for a float that is neither \<open>None\<close> nor zero\<close>
  "rating_filter None df = df"
| "rating_filter (Some rating) df =
     (if rating = 0 then df else filter (\<lambda>row. rating \<le> IMDB_Rating row) df)"

fun mood_polarity :: "(string \<Rightarrow> real) \<Rightarrow> string option \<Rightarrow> real option" where
  \<comment> \<open>\<open>TextBlob(mood).sentiment.polarity if mood else None\<close>\<close>
  "mood_polarity score None = None"
| "mood_polarity score (Some mood) = (if mood = [] then None else Some (score mood))"

definition mood_match :: "real option \<Rightarrow> real \<Rightarrow> bool" where
  \<comment> \<open>\<open>not mood or (mood_polarity * polarity > 0) or polarity == 0\<close>\<close>
  "mood_match mp polarity =
     (case mp of None \<Rightarrow> True | Some m \<Rightarrow> m * polarity > 0 \<or> polarity = 0)"

fun collect ::
  "(string \<Rightarrow> real) \<Rightarrow> real option \<Rightarrow> int \<Rightarrow> recommendation list \<Rightarrow> dataset
     \<Rightarrow> recommendation list" where
  \<comment> \<open>the loop over the shuffled rows; the list is \<open>recommendations\<close>\<close>
  "collect score mp top_n recs [] = recs"
| "collect score mp top_n recs (row # rows) =
     (case Overview row of
        None \<Rightarrow> collect score mp top_n recs rows
      | Some overview \<Rightarrow>
          (let polarity = score overview;
               recs' = (if mood_match mp polarity
                        then recs @ [(Series_Title row, polarity)] else recs)
           in if int (length recs') = top_n then recs'
              else collect score mp top_n recs' rows))"

definition recommend_movies ::
  "(string \<Rightarrow> real) \<Rightarrow> (string \<Rightarrow> (string \<Rightarrow> bool) option) \<Rightarrow> (dataset \<Rightarrow> dataset) \<Rightarrow> dataset
     \<Rightarrow> string option \<Rightarrow> string option \<Rightarrow> real option \<Rightarrow> int \<Rightarrow> error + result" where
  "recommend_movies score re_compile shuffle movies_df genre mood rating top_n =
     (case genre_filter re_compile genre movies_df of
        Inl e \<Rightarrow> Inl e
      | Inr by_genre \<Rightarrow>
          (let filtered_df = shuffle (rating_filter rating by_genre);
               recommendations = collect score (mood_polarity score mood) top_n [] filtered_df
           in Inr (if recommendations = [] then Message no_recommendations
                   else Recommendations recommendations)))"

fun recs_of :: "result \<Rightarrow> recommendation list" where
  "recs_of (Recommendations recs) = recs"
| "recs_of (Message m) = []"

text \<open>
  The rows that pass the test of the loop, as recommendations and in the order of the rows:
  what the loop would collect if it never stopped early.
\<close>

definition matches :: "(string \<Rightarrow> real) \<Rightarrow> real option \<Rightarrow> dataset \<Rightarrow> recommendation list" where
  "matches score mp rows =
     concat (map (\<lambda>row. case Overview row of
                          None \<Rightarrow> []
                        | Some overview \<Rightarrow>
                            if mood_match mp (score overview)
                            then [(Series_Title row, score overview)] else []) rows)"

section \<open>Collecting the genre and the rating in the session\<close>

text \<open>
  The lines typed by the user are a list; \<open>input()\<close> takes the first one and raises
  \<open>EOFError\<close> when there is none. Each loop returns its value with the lines left unread.
\<close>

fun collect_genre :: "string list \<Rightarrow> string list \<Rightarrow> error + (string \<times> string list)" where
  "collect_genre genres [] = Inl EOFError"
| "collect_genre genres (line # rest) =
     (let genre_input = strip line;
          by_name = (if title genre_input \<in> set genres then Inr (title genre_input, rest)
                     else collect_genre genres rest)
      in if isdigit genre_input
         then (case py_int genre_input of
                 Inl e \<Rightarrow> Inl e
               | Inr n \<Rightarrow>
                   if 1 \<le> n \<and> n \<le> length genres then Inr (genres ! (n - 1), rest)
                   else by_name)
         else by_name)"

text \<open>
  The test \<open>genre_input.isdigit() and 1 <= int(genre_input) <= len(genres)\<close> calls \<open>int\<close> only
  on a text that passed \<open>isdigit\<close>, outside any \<open>try\<close>: when \<open>int\<close> raises, the session ends
  with the exception.
\<close>

text \<open>
  \<open>float(text)\<close> is a parameter: it raises \<open>ValueError\<close> (\<open>None\<close>) or returns a float, which
  is a number, an infinity or NaN. A comparison with NaN is false.
\<close>

datatype pyfloat = Finite real | Infinity bool | NaN

fun in_rating_range :: "pyfloat \<Rightarrow> real option" where
  \<comment> \<open>\<open>7.6 <= rating <= 9.3\<close>\<close>
  "in_rating_range (Finite x) = (if 7.6 \<le> x \<and> x \<le> 9.3 then Some x else None)"
| "in_rating_range (Infinity positive) = None"
| "in_rating_range NaN = None"

fun collect_rating ::
  "(string \<Rightarrow> pyfloat option) \<Rightarrow> string list \<Rightarrow> error + (real option \<times> string list)" where
  "collect_rating float_of [] = Inl EOFError"
| "collect_rating float_of (line # rest) =
     (let rating_input = strip line in
      if lower rating_input = ''skip'' then Inr (None, rest)
      else case float_of rating_input of
             None \<Rightarrow> collect_rating float_of rest
           | Some rating \<Rightarrow>
               (case in_rating_range rating of
                  Some x \<Rightarrow> Inr (Some x, rest)
                | None \<Rightarrow> collect_rating float_of rest))"

definition valid_index :: "string list \<Rightarrow> string \<Rightarrow> bool" where
  \<comment> \<open>\<open>genre_input.isdigit() and 1 <= int(genre_input) <= len(genres)\<close> holds\<close>
  "valid_index genres genre_input =
     (isdigit genre_input \<and>
      (case py_int genre_input of Inl e \<Rightarrow> False | Inr n \<Rightarrow> 1 \<le> n \<and> n \<le> length genres))"

definition int_refused :: "string \<Rightarrow> bool" where
  \<comment> \<open>the text passes \<open>isdigit\<close> and \<open>int\<close> raises on it\<close>
  "int_refused genre_input =
     (isdigit genre_input \<and> (case py_int genre_input of Inl e \<Rightarrow> True | Inr n \<Rightarrow> False))"

definition rejected_genre :: "string list \<Rightarrow> string \<Rightarrow> bool" where
  \<comment> \<open>a line on which \<open>int\<close> does not raise and that is neither an index into the catalog
      nor, in title case, an entry of it\<close>
  "rejected_genre genres line =
     (\<not> int_refused (strip line) \<and> \<not> valid_index genres (strip line) \<and>
      title (strip line) \<notin> set genres)"

definition rejected_rating :: "(string \<Rightarrow> pyfloat option) \<Rightarrow> string \<Rightarrow> bool" where
  \<comment> \<open>a line that is not "skip" and is either not a number or a number out of the range\<close>
  "rejected_rating float_of line =
     (lower (strip line) \<noteq> ''skip'' \<and>
      (case float_of (strip line) of None \<Rightarrow> True | Some rating \<Rightarrow> in_rating_range rating = None))"

section \<open>Example data\<close>

definition movie_A :: movie where
  "movie_A = \<lparr>Series_Title = ''A'', Genre = Some ''Drama'',
              Overview = Some ''A sad story'', IMDB_Rating = 8.0\<rparr>"

definition movie_B :: movie where
  "movie_B = \<lparr>Series_Title = ''B'', Genre = Some ''Comedy'',
              Overview = Some ''A happy tale'', IMDB_Rating = 7.0\<rparr>"

definition movie_C :: movie where
  \<comment> \<open>the overview cell is empty in the file, so it is missing in the data frame\<close>
  "movie_C = \<lparr>Series_Title = ''C'', Genre = Some ''Drama'',
              Overview = None, IMDB_Rating = 9.0\<rparr>"

definition movie_D :: movie where
  "movie_D = \<lparr>Series_Title = ''D'', Genre = None,
              Overview = Some ''A report'', IMDB_Rating = -1\<rparr>"

definition movie_E :: movie where
  "movie_E = \<lparr>Series_Title = ''E'', Genre = Some ''Action, Sci-Fi, Drama'',
              Overview = Some ''A happy tale'', IMDB_Rating = 8.5\<rparr>"

definition movie_G :: movie where
  "movie_G = \<lparr>Series_Title = ''G'', Genre = Some ''Drama,  Sci-Fi '',
              Overview = Some ''A sad story'', IMDB_Rating = 7.9\<rparr>"

definition movie_H :: movie where
  "movie_H = \<lparr>Series_Title = ''H'', Genre = None,
              Overview = Some ''A report'', IMDB_Rating = 8.0\<rparr>"

definition movie_F :: movie where
  "movie_F = \<lparr>Series_Title = ''F'', Genre = Some ''drama'',
              Overview = Some ''A sad story'', IMDB_Rating = 8.1\<rparr>"

definition demo_score :: "string \<Rightarrow> real" where
  \<comment> \<open>a polarity table for the example texts; any other text is neutral\<close>
  "demo_score text =
     (if text = ''A happy tale'' \<or> text = ''happy'' then 0.8
      else if text = ''A sad story'' \<or> text = ''sad'' then - 0.5
      else 0)"

definition no_regex :: "string \<Rightarrow> (string \<Rightarrow> bool) option" where
  "no_regex pat = None"

definition dot_regex :: "string \<Rightarrow> (string \<Rightarrow> bool) option" where
  \<comment> \<open>the compiler on the pattern of one example: a dot matches any character but a newline\<close>
  "dot_regex pat = (if pat = ''.'' then Some (\<lambda>s. list_ex (\<lambda>c. c \<noteq> CHR 0x0A) s) else None)"

definition demo_float :: "string \<Rightarrow> pyfloat option" where
  \<comment> \<open>\<open>float\<close> on the texts of the examples; every other text of the examples is not a number\<close>
  "demo_float text =
     (if text = ''9.5'' then Some (Finite 9.5)
      else if text = ''8'' then Some (Finite 8)
      else if text = ''nan'' then Some NaN
      else None)"

section \<open>Properties of the string operations\<close>

lemma sublist_dropWhile: "sublist (dropWhile P xs) xs"
  by (rule suffix_imp_sublist) (rule suffix_dropWhile)

lemma sublist_strip: "sublist (strip s) s"
proof -
  have "suffix (dropWhile is_space (rev (dropWhile is_space s))) (rev (dropWhile is_space s))"
    by (rule suffix_dropWhile)
  then have "prefix (strip s) (dropWhile is_space s)"
    unfolding strip_def by (simp add: suffix_to_prefix)
  then have "sublist (strip s) (dropWhile is_space s)"
    by (rule prefix_imp_sublist)
  then show ?thesis
    using sublist_dropWhile sublist_order.order_trans by blast
qed

lemma split_sep_sublist: "p \<in> set (split_sep cur s) \<Longrightarrow> sublist p (cur @ s)"
proof (induction cur s rule: split_sep.induct)
  case (1 cur)
  then show ?case by simp
next
  case (2 cur c)
  then show ?case by simp
next
  case (3 cur c d cs)
  show ?case
  proof (cases "c = CHR '','' \<and> d = CHR '' ''")
    case True
    with 3 have "p = cur \<or> p \<in> set (split_sep [] cs)" by simp
    then show ?thesis
    proof
      assume "p = cur"
      then show ?thesis by (simp add: sublist_def) (metis append_Nil)
    next
      assume "p \<in> set (split_sep [] cs)"
      with 3 True have "sublist p cs" by simp
      then obtain ps ss where "cs = ps @ p @ ss"
        by (auto simp: sublist_def)
      then have "cur @ c # d # cs = (cur @ c # d # ps) @ p @ ss" by simp
      then show ?thesis unfolding sublist_def by blast
    qed
  next
    case False
    with 3 have "p \<in> set (split_sep (cur @ [c]) (d # cs))" by auto
    with 3 False have "sublist p ((cur @ [c]) @ d # cs)" by blast
    then show ?thesis by simp
  qed
qed

lemma split_comma_sublist: "p \<in> set (split_comma s) \<Longrightarrow> sublist p s"
  using split_sep_sublist [of p "[]" s] by (simp add: split_comma_def)

lemma genre_pieces_from_record:
  "g \<in> set (genre_pieces df) \<Longrightarrow> \<exists>r \<in> set df. \<exists>s. Genre r = Some s \<and> sublist g s"
proof -
  assume "g \<in> set (genre_pieces df)"
  then obtain r where r: "r \<in> set df"
    and g: "g \<in> set (case Genre r of None \<Rightarrow> [] | Some s \<Rightarrow> map strip (split_comma s))"
    by (auto simp: genre_pieces_def)
  from g obtain s where s: "Genre r = Some s" and "g \<in> set (map strip (split_comma s))"
    by (cases "Genre r") auto
  then obtain p where "p \<in> set (split_comma s)" and "g = strip p" by auto
  then have "sublist g s"
    using split_comma_sublist sublist_strip sublist_order.order_trans by blast
  with r s show ?thesis by blast
qed

lemma set_genre_pieces:
  "set (genre_pieces df) =
     {strip p | p r s. r \<in> set df \<and> Genre r = Some s \<and> p \<in> set (split_comma s)}"
  by (auto simp: genre_pieces_def split: option.splits) metis

lemma list_genres_Inr:
  "list_genres df = Inr gs \<longleftrightarrow> \<not> str_refused df \<and> gs = sort (remdups (genre_pieces df))"
  by (auto simp: list_genres_def)

lemma list_genres_example:
  "list_genres [movie_A, movie_D, movie_E, movie_G] = Inr [''Action'', ''Drama'', ''Sci-Fi'']"
  by code_simp

lemma strip_decomp:
  "\<exists>lead trail. s = lead @ strip s @ trail \<and> list_all is_space lead \<and> list_all is_space trail"
proof -
  let ?mid = "dropWhile is_space s"
  have s: "s = takeWhile is_space s @ ?mid" by simp
  have "rev ?mid = takeWhile is_space (rev ?mid) @ dropWhile is_space (rev ?mid)" by simp
  then have "?mid = rev (dropWhile is_space (rev ?mid)) @ rev (takeWhile is_space (rev ?mid))"
    by (metis rev_append rev_rev_ident)
  then have mid: "?mid = strip s @ rev (takeWhile is_space (rev ?mid))"
    by (simp add: strip_def)
  have "list_all is_space (takeWhile is_space s)"
    by (simp add: list_all_iff) (meson set_takeWhileD)
  moreover have "list_all is_space (rev (takeWhile is_space (rev ?mid)))"
    by (simp add: list_all_iff) (meson set_takeWhileD)
  moreover have "s = takeWhile is_space s @ strip s @ rev (takeWhile is_space (rev ?mid))"
    using s mid by metis
  ultimately show ?thesis by blast
qed

lemma strip_trimmed:
  assumes "strip s \<noteq> []"
  shows "\<not> is_space (hd (strip s)) \<and> \<not> is_space (last (strip s))"
proof -
  let ?mid = "dropWhile is_space s"
  let ?trail = "dropWhile is_space (rev ?mid)"
  from assms have ne: "?trail \<noteq> []" by (simp add: strip_def)
  then have "\<not> is_space (hd ?trail)" by (rule hd_dropWhile)
  then have last: "\<not> is_space (last (strip s))"
    using ne by (simp add: strip_def last_rev)
  from ne have mid: "?mid \<noteq> []" by (metis dropWhile.simps(1) rev.simps(1))
  then have front: "\<not> is_space (hd ?mid)" by (rule hd_dropWhile)
  have "suffix ?trail (rev ?mid)" by (rule suffix_dropWhile)
  then have "prefix (strip s) ?mid" by (simp add: strip_def suffix_to_prefix)
  with assms have "hd (strip s) = hd ?mid"
    by (metis hd_append2 prefix_def)
  with front last show ?thesis by simp
qed

lemma join_comma_Cons:
  "join_comma (p # ps) = (if ps = [] then p else p @ '', '' @ join_comma ps)"
  by (cases ps) simp_all

lemma split_sep_not_Nil: "split_sep cur s \<noteq> []"
  by (induction cur s rule: split_sep.induct) simp_all

lemma join_split_sep: "join_comma (split_sep cur s) = cur @ s"
  by (induction cur s rule: split_sep.induct) (simp_all add: join_comma_Cons split_sep_not_Nil)

lemma join_split_comma: "join_comma (split_comma s) = s"
  by (simp add: split_comma_def join_split_sep)

lemma sublist_pair_snoc:
  "sublist [a, b] (xs @ [c]) \<longleftrightarrow> sublist [a, b] xs \<or> (xs \<noteq> [] \<and> last xs = a \<and> c = b)"
proof
  assume "sublist [a, b] (xs @ [c])"
  then obtain ps ss where eq: "xs @ [c] = ps @ [a, b] @ ss" by (auto simp: sublist_def)
  show "sublist [a, b] xs \<or> (xs \<noteq> [] \<and> last xs = a \<and> c = b)"
  proof (cases ss rule: rev_cases)
    case Nil
    with eq have "xs @ [c] = (ps @ [a]) @ [b]" by simp
    then have "xs = ps @ [a] \<and> c = b" by (simp only: append1_eq_conv)
    then show ?thesis by simp
  next
    case (snoc ss' z)
    with eq have "xs @ [c] = (ps @ [a, b] @ ss') @ [z]" by simp
    then have "xs = ps @ [a, b] @ ss'" by (simp only: append1_eq_conv)
    then show ?thesis unfolding sublist_def by blast
  qed
next
  assume "sublist [a, b] xs \<or> (xs \<noteq> [] \<and> last xs = a \<and> c = b)"
  then show "sublist [a, b] (xs @ [c])"
  proof
    assume "sublist [a, b] xs"
    then obtain ps ss where "xs = ps @ [a, b] @ ss" by (auto simp: sublist_def)
    then have "xs @ [c] = ps @ [a, b] @ (ss @ [c])" by simp
    then show ?thesis unfolding sublist_def by blast
  next
    assume h: "xs \<noteq> [] \<and> last xs = a \<and> c = b"
    then have "xs = butlast xs @ [a]" by (metis append_butlast_last_id)
    with h have "xs @ [c] = butlast xs @ [a, b] @ []" by simp
    then show ?thesis unfolding sublist_def by blast
  qed
qed

lemma split_sep_no_separator:
  "p \<in> set (split_sep cur s) \<Longrightarrow> \<not> sublist '', '' cur \<Longrightarrow>
   \<not> (cur \<noteq> [] \<and> last cur = CHR '','' \<and> s \<noteq> [] \<and> hd s = CHR '' '') \<Longrightarrow>
   \<not> sublist '', '' p"
proof (induction cur s rule: split_sep.induct)
  case (1 cur)
  then show ?case by simp
next
  case (2 cur c)
  then show ?case by (simp add: sublist_pair_snoc)
next
  case (3 cur c d cs)
  show ?case
  proof (cases "c = CHR '','' \<and> d = CHR '' ''")
    case True
    with 3 have "p = cur \<or> p \<in> set (split_sep [] cs)" by simp
    then show ?thesis
    proof
      assume "p = cur"
      with "3.prems" show ?thesis by simp
    next
      assume "p \<in> set (split_sep [] cs)"
      with "3.IH"(1) [OF True] show ?thesis by simp
    qed
  next
    case False
    with "3.prems" have p: "p \<in> set (split_sep (cur @ [c]) (d # cs))" by auto
    from "3.prems" have a: "\<not> sublist '', '' (cur @ [c])"
      by (simp add: sublist_pair_snoc)
    from False have b: "\<not> (cur @ [c] \<noteq> [] \<and> last (cur @ [c]) = CHR '','' \<and>
        d # cs \<noteq> [] \<and> hd (d # cs) = CHR '' '')" by simp
    from "3.IH"(2) [OF False p a b] show ?thesis .
  qed
qed

lemma split_comma_no_separator: "p \<in> set (split_comma s) \<Longrightarrow> \<not> sublist '', '' p"
  using split_sep_no_separator [of p "[]" s] by (simp add: split_comma_def)

section \<open>Properties of the loop\<close>

lemma matches_Nil: "matches score mp [] = []"
  by (simp add: matches_def)

lemma matches_Cons_None:
  "Overview row = None \<Longrightarrow> matches score mp (row # rows) = matches score mp rows"
  by (simp add: matches_def)

lemma matches_Cons_Some:
  "Overview row = Some ov \<Longrightarrow>
   matches score mp (row # rows) =
     (if mood_match mp (score ov) then [(Series_Title row, score ov)] else [])
     @ matches score mp rows"
  by (simp add: matches_def)

lemma in_matches_iff:
  "(t, p) \<in> set (matches score mp rows) \<longleftrightarrow>
     (\<exists>row \<in> set rows. \<exists>ov. Overview row = Some ov \<and> t = Series_Title row \<and>
                                p = score ov \<and> mood_match mp p)"
proof (induction rows)
  case Nil
  then show ?case by (simp add: matches_Nil)
next
  case (Cons row rows)
  then show ?case
    by (cases "Overview row") (auto simp: matches_Cons_None matches_Cons_Some)
qed

lemma matches_empty_iff:
  "matches score mp rows = [] \<longleftrightarrow>
     (\<forall>row \<in> set rows. \<forall>ov. Overview row = Some ov \<longrightarrow> \<not> mood_match mp (score ov))"
  by (induction rows) (auto simp: matches_def split: option.splits)

lemma collect_take:
  "1 \<le> top_n \<Longrightarrow> int (length recs) < top_n \<Longrightarrow>
   collect score mp top_n recs rows = take (nat top_n) (recs @ matches score mp rows)"
proof (induction rows arbitrary: recs)
  case Nil
  then show ?case by (simp add: matches_Nil)
next
  case (Cons row rows)
  show ?case
  proof (cases "Overview row")
    case None
    with Cons show ?thesis by (simp add: matches_Cons_None)
  next
    case (Some ov)
    define recs' where
      "recs' = (if mood_match mp (score ov) then recs @ [(Series_Title row, score ov)] else recs)"
    have step: "recs @ matches score mp (row # rows) = recs' @ matches score mp rows"
      using Some by (simp add: matches_Cons_Some recs'_def)
    have len: "int (length recs') \<le> top_n"
      using Cons.prems by (simp add: recs'_def)
    show ?thesis
    proof (cases "int (length recs') = top_n")
      case True
      then have "collect score mp top_n recs (row # rows) = recs'"
        using Some by (simp add: recs'_def Let_def)
      moreover have "take (nat top_n) (recs' @ matches score mp rows) = recs'"
        using True by simp
      ultimately show ?thesis by (simp add: step)
    next
      case False
      with len have "int (length recs') < top_n" by simp
      then have "collect score mp top_n recs' rows = take (nat top_n) (recs' @ matches score mp rows)"
        using Cons.IH Cons.prems by simp
      moreover have "collect score mp top_n recs (row # rows) = collect score mp top_n recs' rows"
        using Some False by (simp add: recs'_def Let_def)
      ultimately show ?thesis by (simp add: step)
    qed
  qed
qed

lemma collect_all:
  "top_n < int (length recs) \<Longrightarrow>
   collect score mp top_n recs rows = recs @ matches score mp rows"
proof (induction rows arbitrary: recs)
  case Nil
  then show ?case by (simp add: matches_Nil)
next
  case (Cons row rows)
  show ?case
  proof (cases "Overview row")
    case None
    with Cons show ?thesis by (simp add: matches_Cons_None)
  next
    case (Some ov)
    show ?thesis
    proof (cases "mood_match mp (score ov)")
      case True
      have "top_n < int (length (recs @ [(Series_Title row, score ov)]))"
        using Cons.prems by simp
      from Cons.IH [OF this] Cons.prems Some True show ?thesis
        by (simp add: matches_Cons_Some Let_def)
    next
      case False
      from Cons.IH [OF Cons.prems] Cons.prems Some False show ?thesis
        by (simp add: matches_Cons_Some Let_def)
    qed
  qed
qed

lemma collect_subset:
  "set (collect score mp top_n recs rows) \<subseteq> set recs \<union> set (matches score mp rows)"
proof (induction rows arbitrary: recs)
  case Nil
  then show ?case by simp
next
  case (Cons row rows)
  show ?case
  proof (cases "Overview row")
    case None
    with Cons show ?thesis by (simp add: matches_Cons_None)
  next
    case (Some ov)
    show ?thesis
    proof (cases "mood_match mp (score ov)")
      case True
      from Cons.IH [of "recs @ [(Series_Title row, score ov)]"] Some True show ?thesis
        by (auto simp: matches_Cons_Some Let_def)
    next
      case False
      from Cons.IH [of recs] Some False show ?thesis
        by (auto simp: matches_Cons_Some Let_def)
    qed
  qed
qed

section \<open>Properties of the filters\<close>

lemma perm_pair:
  assumes "mset ys = mset [a, c]"
  shows "ys = [a, c] \<or> ys = [c, a]"
proof -
  from assms have "length ys = 2"
    by (metis length_Cons list.size(3) mset_eq_length numeral_2_eq_2)
  then obtain x y where ys: "ys = [x, y]"
    by (metis (no_types, opaque_lifting) One_nat_def Suc_1 length_0_conv length_Suc_conv)
  with assms have "{#x, y#} = {#a, c#}" by simp
  then show ?thesis unfolding ys
    by (auto simp: add_eq_conv_ex)
qed

lemma length_matches: "length (matches score mp rows) \<le> length rows"
proof (induction rows)
  case Nil
  then show ?case by (simp add: matches_Nil)
next
  case (Cons row rows)
  then show ?case
    by (cases "Overview row") (auto simp: matches_Cons_None matches_Cons_Some)
qed

lemma length_rating_filter: "length (rating_filter rating d) \<le> length d"
  by (cases rating) auto

lemma set_rating_filter:
  "set (rating_filter rating d) =
     {row \<in> set d. \<forall>x. rating = Some x \<and> x \<noteq> 0 \<longrightarrow> x \<le> IMDB_Rating row}"
  by (cases rating) auto

lemma genre_filter_length: "genre_filter rc genre df = Inr d \<Longrightarrow> length d \<le> length df"
  by (cases genre) (auto split: if_splits sum.splits)

lemma genre_filter_subset: "genre_filter rc genre df = Inr d \<Longrightarrow> set d \<subseteq> set df"
  by (cases genre) (auto split: if_splits sum.splits)

lemma find_ci_sublist: "find_ci pat s \<longleftrightarrow> sublist (lower pat) (lower s)"
  by (induction s) (auto simp: lower_def sublist_Cons_right)

lemma genre_filter_not_missing:
  "genre_filter rc (Some g) df = Inr d \<Longrightarrow> g \<noteq> [] \<Longrightarrow> row \<in> set d \<Longrightarrow> Genre row \<noteq> None"
  by (auto simp: str_contains_def split: if_splits sum.splits option.splits)

lemma genre_filter_contains:
  "genre_filter rc (Some g) df = Inr d \<Longrightarrow> g \<noteq> [] \<Longrightarrow> plain_pattern g \<Longrightarrow> row \<in> set d \<Longrightarrow>
   \<exists>s. Genre row = Some s \<and> sublist (lower g) (lower s)"
  by (auto simp: str_contains_def find_ci_sublist split: if_splits sum.splits option.splits)

lemma recommend_movies_Inr:
  assumes "recommend_movies score rc shuffle df genre mood rating top_n = Inr res"
  shows "\<exists>d. genre_filter rc genre df = Inr d \<and>
             recs_of res = collect score (mood_polarity score mood) top_n []
                             (shuffle (rating_filter rating d)) \<and>
             (res = Message no_recommendations \<longleftrightarrow> recs_of res = []) \<and>
             (recs_of res \<noteq> [] \<longrightarrow> res = Recommendations (recs_of res))"
  using assms
  by (auto simp: recommend_movies_def Let_def split: sum.splits if_splits)

lemma run_limit_two:
  "recommend_movies demo_score no_regex id [movie_A, movie_B, movie_E] None None None 2 =
     Inr (Recommendations [(''A'', - 0.5), (''B'', 0.8)])"
  by (simp add: recommend_movies_def movie_A_def movie_B_def movie_E_def demo_score_def
      mood_match_def)

lemma collect_nonzero:
  assumes "top_n \<noteq> 0"
  shows "collect score mp top_n [] rows = [] \<longleftrightarrow> matches score mp rows = []"
proof (cases "1 \<le> top_n")
  case True
  then have "collect score mp top_n [] rows = take (nat top_n) (matches score mp rows)"
    using collect_take [of top_n "[]" score mp rows] by simp
  with True show ?thesis by (simp add: take_eq_Nil)
next
  case False
  with assms have "top_n < int (length ([] :: recommendation list))" by simp
  from collect_all [OF this] show ?thesis by simp
qed

lemma shuffled_set:
  assumes "\<forall>xs. mset (shuffle xs) = mset xs"
  shows "set (shuffle xs) = set xs"
  using assms by (metis mset_eq_setD)

lemma run_happy_limit_five:
  "recommend_movies demo_score no_regex id [movie_A, movie_B] None (Some ''happy'') None 5 =
     Inr (Recommendations [(''B'', 0.8)])"
  by (simp add: recommend_movies_def movie_A_def movie_B_def demo_score_def mood_match_def)

lemma run_sad_comedy:
  "recommend_movies demo_score no_regex id [movie_A, movie_B] (Some ''Comedy'') (Some ''sad'') None 5 =
     Inr (Message no_recommendations)"
  by code_simp

lemma genre_filter_comedy:
  "genre_filter no_regex (Some ''Comedy'') [movie_A, movie_B] = Inr [movie_B]"
  by code_simp

lemma same_sign_iff:
  "(m::real) * p > 0 \<longleftrightarrow> sgn m = sgn p \<and> m \<noteq> 0"
  by (auto simp: zero_less_mult_iff sgn_real_def split: if_splits)

lemma run_neutral_mood:
  "recommend_movies demo_score no_regex id [movie_A, movie_B] None (Some ''meh'') None 5 =
     Inr (Message no_recommendations)"
  by (simp add: recommend_movies_def movie_A_def movie_B_def demo_score_def mood_match_def)

lemma run_empty_mood:
  "recommend_movies demo_score no_regex id [movie_A, movie_B] None (Some []) None 5 =
     Inr (Recommendations [(''A'', - 0.5), (''B'', 0.8)])"
  by (simp add: recommend_movies_def movie_A_def movie_B_def demo_score_def mood_match_def)

lemma movie_B_row:
  "movie_B \<in> set (rating_filter None [movie_A, movie_B])"
  "Overview movie_B = Some ''A happy tale''"
  "Series_Title movie_B = ''B''"
  by (simp_all add: movie_B_def)

lemma demo_score_values:
  "demo_score ''happy'' = 0.8" "demo_score ''A happy tale'' = 0.8"
  "demo_score ''A sad story'' = - 0.5" "demo_score ''meh'' = 0"
  by (simp_all add: demo_score_def)

lemma result_rows:
  assumes perm: "\<forall>xs. mset (shuffle xs) = mset xs"
    and run: "recommend_movies score rc shuffle df genre mood rating top_n = Inr res"
    and mem: "(t, p) \<in> set (recs_of res)"
  shows "\<exists>d. genre_filter rc genre df = Inr d \<and>
             (\<exists>row \<in> set (rating_filter rating d). \<exists>ov. Overview row = Some ov \<and>
                 t = Series_Title row \<and> p = score ov)"
proof -
  from recommend_movies_Inr [OF run] obtain d where
    d: "genre_filter rc genre df = Inr d" and
    recs: "recs_of res = collect score (mood_polarity score mood) top_n []
             (shuffle (rating_filter rating d))"
    by blast
  from mem recs collect_subset [of score "mood_polarity score mood" top_n "[]"
      "shuffle (rating_filter rating d)"]
  have "(t, p) \<in> set (matches score (mood_polarity score mood) (shuffle (rating_filter rating d)))"
    by auto
  then obtain row ov where "row \<in> set (shuffle (rating_filter rating d))"
    and "Overview row = Some ov" "t = Series_Title row" "p = score ov"
    by (auto simp: in_matches_iff)
  with shuffled_set [OF perm, of "rating_filter rating d"] d show ?thesis by blast
qed

lemma plain_drama: "plain_pattern ''drama''" "plain_pattern ''Drama''"
  by (simp_all add: plain_pattern_def regex_special_def)

lemma run_drama_rated:
  "recommend_movies demo_score no_regex id [movie_A, movie_B, movie_E]
     (Some ''drama'') None (Some 8.2) 5 = Inr (Recommendations [(''E'', 0.8)])"
  by code_simp

lemma run_drama_missing_genre:
  "recommend_movies demo_score no_regex id [movie_D, movie_E] (Some ''drama'') None None 5 =
     Inr (Recommendations [(''E'', 0.8)])"
  by code_simp

lemma run_no_genre_missing_genre:
  "recommend_movies demo_score no_regex id [movie_D, movie_E] None None None 5 =
     Inr (Recommendations [(''D'', 0), (''E'', 0.8)])"
  by (simp add: recommend_movies_def movie_D_def movie_E_def demo_score_def mood_match_def)

lemma regex_genre_example:
  "recommend_movies demo_score dot_regex id [movie_A] (Some ''.'') None None 5 =
     Inr (Recommendations [(''A'', - 0.5)]) \<and>
   Genre movie_A = Some ''Drama'' \<and> \<not> sublist (lower ''.'') (lower ''Drama'')"
  by code_simp

lemma empty_text_overview_is_collected:
  "score [] = 0 \<Longrightarrow>
   collect score mp 5 [] [movie_C\<lparr>Overview := Some []\<rparr>] = [(''C'', 0)]"
  by (simp add: movie_C_def mood_match_def split: option.splits)

lemma result_passes:
  assumes "recommend_movies score rc shuffle df genre mood rating top_n = Inr res"
    and "(t, p) \<in> set (recs_of res)"
  shows "mood_match (mood_polarity score mood) p"
proof -
  from recommend_movies_Inr [OF assms(1)] obtain d where
    "recs_of res = collect score (mood_polarity score mood) top_n []
       (shuffle (rating_filter rating d))"
    by blast
  with assms(2) collect_subset [of score "mood_polarity score mood" top_n "[]"
      "shuffle (rating_filter rating d)"]
  have "(t, p) \<in> set (matches score (mood_polarity score mood) (shuffle (rating_filter rating d)))"
    by auto
  then show ?thesis by (auto simp: in_matches_iff)
qed

lemma short_result:
  assumes run: "recommend_movies score rc shuffle df genre mood rating top_n = Inr res"
    and narrowed: "genre_filter rc genre df = Inr d"
    and short: "int (length (recs_of res)) < top_n"
  shows "recs_of res = matches score (mood_polarity score mood) (shuffle (rating_filter rating d))"
proof -
  let ?m = "matches score (mood_polarity score mood) (shuffle (rating_filter rating d))"
  from short have pos: "1 \<le> top_n" by linarith
  from recommend_movies_Inr [OF run] narrowed
  have "recs_of res = collect score (mood_polarity score mood) top_n []
          (shuffle (rating_filter rating d))" by auto
  with collect_take [OF pos, of "[]" score "mood_polarity score mood"
      "shuffle (rating_filter rating d)"] pos
  have eq: "recs_of res = take (nat top_n) ?m" by simp
  with short have "min (length ?m) (nat top_n) < nat top_n" by simp
  then have "length ?m \<le> nat top_n" by linarith
  with eq show ?thesis by simp
qed

lemma passing_row_in_short_result:
  assumes perm: "\<forall>xs. mset (shuffle xs) = mset xs"
    and run: "recommend_movies score rc shuffle df genre mood rating top_n = Inr res"
    and narrowed: "genre_filter rc genre df = Inr d"
    and row: "row \<in> set (rating_filter rating d)" "Overview row = Some ov"
    and pass: "mood_match (mood_polarity score mood) (score ov)"
    and short: "int (length (recs_of res)) < top_n"
  shows "(Series_Title row, score ov) \<in> set (recs_of res)"
proof -
  from row(1) shuffled_set [OF perm, of "rating_filter rating d"]
  have "row \<in> set (shuffle (rating_filter rating d))" by simp
  with row(2) pass
  have "(Series_Title row, score ov)
          \<in> set (matches score (mood_polarity score mood) (shuffle (rating_filter rating d)))"
    unfolding in_matches_iff by blast
  with short_result [OF run narrowed short] show ?thesis by simp
qed

lemma run_happy_limit_one:
  "recommend_movies demo_score no_regex id [movie_B, movie_E] None (Some ''happy'') None 1 =
     Inr (Recommendations [(''B'', 0.8)])"
  by (simp add: recommend_movies_def movie_B_def movie_E_def demo_score_def mood_match_def)

lemma sign_match_limit_example:
  "recommend_movies demo_score no_regex id [movie_A, movie_F] None (Some ''sad'') None 1 =
     Inr (Recommendations [(''A'', - 0.5)]) \<and>
   Overview movie_F = Some ''A sad story'' \<and> Series_Title movie_F = ''F'' \<and>
   sgn (demo_score ''sad'') = sgn (demo_score ''A sad story'') \<and> demo_score ''sad'' \<noteq> 0"
  by (simp add: recommend_movies_def movie_A_def movie_F_def demo_score_def mood_match_def)

lemma movie_E_row:
  "movie_E \<in> set (rating_filter None [movie_B, movie_E])"
  "Overview movie_E = Some ''A happy tale''"
  "Series_Title movie_E = ''E''"
  by (simp_all add: movie_E_def)

lemma list_genres_all_missing_rows:
  "df \<noteq> [] \<Longrightarrow> \<forall>r \<in> set df. Genre r = None \<Longrightarrow> list_genres df = Inl AttributeError"
  by (simp add: list_genres_def str_refused_def list_all_iff)

lemma list_genres_returns:
  "df = [] \<or> (\<exists>r \<in> set df. Genre r \<noteq> None) \<Longrightarrow>
   list_genres df = Inr (sort (remdups (genre_pieces df)))"
  by (auto simp: list_genres_def str_refused_def list_all_iff)

lemma list_genres_catalog:
  assumes "list_genres df = Inr gs"
  shows "sorted gs \<and> distinct gs \<and>
         set gs = {strip p | p r s. r \<in> set df \<and> Genre r = Some s \<and> p \<in> set (split_comma s)} \<and>
         (\<forall>g \<in> set gs. (\<exists>r \<in> set df. \<exists>s. Genre r = Some s \<and> sublist g s) \<and>
                        (g \<noteq> [] \<longrightarrow> \<not> is_space (hd g) \<and> \<not> is_space (last g)))"
proof -
  from assms have gs: "gs = sort (remdups (genre_pieces df))" by (simp add: list_genres_Inr)
  have set_eq: "set gs =
      {strip p | p r s. r \<in> set df \<and> Genre r = Some s \<and> p \<in> set (split_comma s)}"
    by (simp add: gs set_genre_pieces)
  have "\<forall>g \<in> set gs. (\<exists>r \<in> set df. \<exists>s. Genre r = Some s \<and> sublist g s) \<and>
                        (g \<noteq> [] \<longrightarrow> \<not> is_space (hd g) \<and> \<not> is_space (last g))"
  proof
    fix g assume g: "g \<in> set gs"
    then have "g \<in> set (genre_pieces df)" by (simp add: gs)
    then have a: "\<exists>r \<in> set df. \<exists>s. Genre r = Some s \<and> sublist g s"
      by (rule genre_pieces_from_record)
    from g set_eq obtain p where "g = strip p" by auto
    then have "g \<noteq> [] \<longrightarrow> \<not> is_space (hd g) \<and> \<not> is_space (last g)"
      using strip_trimmed by blast
    with a show "(\<exists>r \<in> set df. \<exists>s. Genre r = Some s \<and> sublist g s) \<and>
                        (g \<noteq> [] \<longrightarrow> \<not> is_space (hd g) \<and> \<not> is_space (last g))" ..
  qed
  with set_eq show ?thesis by (simp add: gs)
qed

section \<open>Letter case\<close>

lemma char_eqI: "(of_char c :: nat) = of_char d \<Longrightarrow> c = d"
  by (metis char_of_char)

lemma is_upper_iff: "is_upper c \<longleftrightarrow> 65 \<le> (of_char c :: nat) \<and> (of_char c :: nat) \<le> 90"
  by (simp add: is_upper_def Let_def)

lemma is_lower_iff: "is_lower c \<longleftrightarrow> 97 \<le> (of_char c :: nat) \<and> (of_char c :: nat) \<le> 122"
  by (simp add: is_lower_def Let_def)

lemma of_char_lower_upper:
  assumes "is_upper c"
  shows "(of_char (lower_char c) :: nat) = of_char c + 32"
proof -
  from assms have "(of_char c :: nat) + 32 < 256" unfolding is_upper_iff by arith
  then have "((of_char c :: nat) + 32) mod 256 = of_char c + 32" by (rule mod_less)
  with assms show ?thesis by (simp only: lower_char_def if_True of_char_of)
qed

lemma of_char_upper_lower:
  assumes "is_lower c"
  shows "(of_char (upper_char c) :: nat) = of_char c - 32"
proof -
  from assms have "(of_char c :: nat) - 32 < 256" unfolding is_lower_iff by arith
  then have "((of_char c :: nat) - 32) mod 256 = of_char c - 32" by (rule mod_less)
  with assms show ?thesis by (simp only: upper_char_def if_True of_char_of)
qed

lemma lower_char_fix: "\<not> is_upper c \<Longrightarrow> lower_char c = c"
  by (simp only: lower_char_def if_False)

lemma upper_char_fix: "\<not> is_lower c \<Longrightarrow> upper_char c = c"
  by (simp only: upper_char_def if_False)

lemma upper_not_lower: "is_upper c \<Longrightarrow> \<not> is_lower c"
  unfolding is_upper_iff is_lower_iff by arith

lemma is_lower_lower_char:
  assumes "is_upper c" shows "is_lower (lower_char c)"
proof -
  from assms have "65 \<le> (of_char c :: nat) \<and> (of_char c :: nat) \<le> 90" by (simp only: is_upper_iff)
  then have "97 \<le> (of_char c :: nat) + 32 \<and> (of_char c :: nat) + 32 \<le> 122" by arith
  then show ?thesis by (simp only: is_lower_iff of_char_lower_upper [OF assms])
qed

lemma is_upper_upper_char:
  assumes "is_lower c" shows "is_upper (upper_char c)"
proof -
  from assms have "97 \<le> (of_char c :: nat) \<and> (of_char c :: nat) \<le> 122" by (simp only: is_lower_iff)
  then have "65 \<le> (of_char c :: nat) - 32 \<and> (of_char c :: nat) - 32 \<le> 90" by arith
  then show ?thesis by (simp only: is_upper_iff of_char_upper_lower [OF assms])
qed

lemma not_upper_lower_char: "\<not> is_upper (lower_char c)"
proof (cases "is_upper c")
  case True
  then show ?thesis using is_lower_lower_char upper_not_lower by blast
next
  case False
  then show ?thesis by (simp only: lower_char_fix not_False_eq_True)
qed

lemma upper_lower_char_upper:
  assumes u: "is_upper c" shows "upper_char (lower_char c) = c"
proof (rule char_eqI)
  have l: "is_lower (lower_char c)" using u by (rule is_lower_lower_char)
  have "(of_char (upper_char (lower_char c)) :: nat) = of_char (lower_char c) - 32"
    using l by (rule of_char_upper_lower)
  also have "\<dots> = (of_char c + 32) - 32" by (simp only: of_char_lower_upper [OF u])
  also have "\<dots> = of_char c" by arith
  finally show "(of_char (upper_char (lower_char c)) :: nat) = of_char c" .
qed

lemma lower_upper_char_lower:
  assumes l: "is_lower c" shows "lower_char (upper_char c) = c"
proof (rule char_eqI)
  have u: "is_upper (upper_char c)" using l by (rule is_upper_upper_char)
  have ge: "32 \<le> (of_char c :: nat)" using l unfolding is_lower_iff by arith
  have "(of_char (lower_char (upper_char c)) :: nat) = of_char (upper_char c) + 32"
    using u by (rule of_char_lower_upper)
  also have "\<dots> = (of_char c - 32) + 32" by (simp only: of_char_upper_lower [OF l])
  also have "\<dots> = of_char c" using ge by arith
  finally show "(of_char (lower_char (upper_char c)) :: nat) = of_char c" .
qed

lemma lower_char_idem: "lower_char (lower_char c) = lower_char c"
  using not_upper_lower_char by (rule lower_char_fix)

lemma lower_upper_char: "lower_char (upper_char c) = lower_char c"
proof (cases "is_lower c")
  case True
  then have "\<not> is_upper c" using upper_not_lower by blast
  then have "lower_char c = c" by (rule lower_char_fix)
  with lower_upper_char_lower [OF True] show ?thesis by (rule trans [OF _ sym])
next
  case False
  then have "upper_char c = c" by (rule upper_char_fix)
  then show ?thesis by (rule arg_cong)
qed

lemma upper_char_lower_char: "upper_char (lower_char c) = upper_char c"
proof (cases "is_upper c")
  case True
  then have "\<not> is_lower c" by (rule upper_not_lower)
  then have "upper_char c = c" by (rule upper_char_fix)
  with upper_lower_char_upper [OF True] show ?thesis by (rule trans [OF _ sym])
next
  case False
  then have "lower_char c = c" by (rule lower_char_fix)
  then show ?thesis by (rule arg_cong)
qed

lemma is_cased_lower_char: "is_cased (lower_char c) = is_cased c"
proof (cases "is_upper c")
  case True
  then show ?thesis using is_lower_lower_char [OF True] by (simp only: is_cased_def simp_thms)
next
  case False
  then have "lower_char c = c" by (rule lower_char_fix)
  then show ?thesis by (rule arg_cong)
qed

lemma lower_char_eq_upper:
  "lower_char c = lower_char d \<Longrightarrow> upper_char c = upper_char d"
  using upper_char_lower_char [of c] upper_char_lower_char [of d] by simp

lemma lower_char_eq_cased:
  "lower_char c = lower_char d \<Longrightarrow> is_cased c = is_cased d"
  using is_cased_lower_char [of c] is_cased_lower_char [of d] by simp

lemma lower_title_from: "lower (title_from prev s) = lower s"
  by (induction s arbitrary: prev) (simp_all add: lower_def lower_char_idem lower_upper_char)

lemma lower_title: "lower (title s) = lower s"
  by (simp add: title_def lower_title_from)

lemma title_from_cong:
  "lower x = lower y \<Longrightarrow> title_from prev x = title_from prev y"
proof (induction x arbitrary: y prev)
  case Nil
  then show ?case by (simp add: lower_def)
next
  case (Cons c cs)
  then obtain d ds where y: "y = d # ds" and c: "lower_char c = lower_char d"
    and rest: "lower cs = lower ds"
    by (cases y) (auto simp: lower_def)
  from Cons.IH [OF rest] c show ?case
    by (simp add: y lower_char_eq_upper [OF c] lower_char_eq_cased [OF c])
qed

lemma title_cong: "lower x = lower y \<Longrightarrow> title x = title y"
  unfolding title_def by (rule title_from_cong)

section \<open>Properties of the input loops\<close>

lemma py_int_cases:
  "py_int s = Inl ValueError \<and> int_max_str_digits < length s \<or>
   py_int s = Inr (int_of_digits s) \<and> length s \<le> int_max_str_digits"
  by (simp add: py_int_def)

lemma collect_genre_step:
  "collect_genre genres (line # rest) =
     (if int_refused (strip line) then Inl ValueError
      else if valid_index genres (strip line)
      then Inr (genres ! (int_of_digits (strip line) - 1), rest)
      else if title (strip line) \<in> set genres then Inr (title (strip line), rest)
      else collect_genre genres rest)"
  using py_int_cases [of "strip line"]
  by (auto simp: valid_index_def int_refused_def Let_def)

lemma collect_genre_accepted:
  "collect_genre genres ins = Inr (g, rest) \<Longrightarrow>
   \<exists>pre line. ins = pre @ line # rest \<and> (\<forall>l \<in> set pre. rejected_genre genres l) \<and>
     \<not> int_refused (strip line) \<and>
     (valid_index genres (strip line) \<and> g = genres ! (int_of_digits (strip line) - 1) \<or>
      \<not> valid_index genres (strip line) \<and> g = title (strip line) \<and> g \<in> set genres)"
proof (induction ins)
  case Nil
  then show ?case by simp
next
  case (Cons a ins)
  have safe: "\<not> int_refused (strip a)"
    using Cons.prems unfolding collect_genre_step by (auto split: if_splits)
  show ?case
  proof (cases "rejected_genre genres a")
    case False
    with safe Cons.prems have "rest = ins \<and>
        (valid_index genres (strip a) \<and> g = genres ! (int_of_digits (strip a) - 1) \<or>
         \<not> valid_index genres (strip a) \<and> g = title (strip a) \<and> g \<in> set genres)"
      unfolding collect_genre_step rejected_genre_def by (auto split: if_splits)
    with safe have "a # ins = [] @ a # rest \<and>
        (\<forall>l \<in> set ([] :: string list). rejected_genre genres l) \<and>
        \<not> int_refused (strip a) \<and>
        (valid_index genres (strip a) \<and> g = genres ! (int_of_digits (strip a) - 1) \<or>
         \<not> valid_index genres (strip a) \<and> g = title (strip a) \<and> g \<in> set genres)"
      by simp
    then show ?thesis by blast
  next
    case True
    with Cons.prems have "collect_genre genres ins = Inr (g, rest)"
      unfolding collect_genre_step rejected_genre_def by simp
    from Cons.IH [OF this] obtain pre line where
      ins: "ins = pre @ line # rest" and
      pre: "\<forall>l \<in> set pre. rejected_genre genres l" and
      acc: "\<not> int_refused (strip line) \<and>
           (valid_index genres (strip line) \<and> g = genres ! (int_of_digits (strip line) - 1) \<or>
            \<not> valid_index genres (strip line) \<and> g = title (strip line) \<and> g \<in> set genres)"
      by blast
    from ins have "a # ins = (a # pre) @ line # rest" by simp
    moreover from pre True have "\<forall>l \<in> set (a # pre). rejected_genre genres l" by simp
    ultimately show ?thesis using acc by blast
  qed
qed

lemma valid_index_in_catalog:
  "valid_index genres s \<Longrightarrow> genres ! (int_of_digits s - 1) \<in> set genres"
proof -
  assume "valid_index genres s"
  then have "1 \<le> int_of_digits s \<and> int_of_digits s \<le> length genres"
    using py_int_cases [of s] by (auto simp: valid_index_def)
  then have "int_of_digits s - 1 < length genres" by arith
  then show ?thesis by (rule nth_mem)
qed

lemma valid_index_not_refused: "valid_index genres s \<Longrightarrow> \<not> int_refused s"
  by (auto simp: valid_index_def int_refused_def split: sum.splits)

lemma sci_fi_typed:
  "title ''Sci-Fi'' = ''Sci-Fi''"
  "lower (strip ''  sci-fi '') = lower ''Sci-Fi''"
  "\<not> valid_index [''Action'', ''Drama'', ''Sci-Fi''] (strip ''  sci-fi '')"
  "\<not> int_refused (strip ''  sci-fi '')"
  by code_simp+

lemma index_typed:
  "valid_index [''Action'', ''Drama'', ''Sci-Fi''] (strip '' 2'')"
  "[''Action'', ''Drama'', ''Sci-Fi''] ! (int_of_digits (strip '' 2'') - 1) = ''Drama''"
  by code_simp+

lemma rejected_typed: "rejected_genre [''Action'', ''Drama'', ''Sci-Fi''] ''7''"
  by code_simp

lemma strip_no_blank:
  assumes "\<not> is_space c" shows "strip (replicate n c) = replicate n c"
proof (cases n)
  case 0
  then show ?thesis by (simp add: strip_def)
next
  case (Suc m)
  have front: "dropWhile is_space (replicate (Suc m) c) = replicate (Suc m) c"
    using assms by simp
  have "rev (replicate (Suc m) c) = replicate (Suc m) c" by (rule rev_replicate)
  then show ?thesis unfolding strip_def Suc front using front by simp
qed

lemma long_digits_refused:
  "int_refused (strip (replicate 4301 (CHR ''9'')))"
proof -
  have nb: "\<not> is_space (CHR ''9'')" by (simp add: is_space_def)
  have dg: "is_digit_char (CHR ''9'')" by (simp add: is_digit_char_def)
  have "isdigit (replicate 4301 (CHR ''9''))"
    using dg by (simp add: isdigit_def list_all_iff)
  moreover have "py_int (replicate 4301 (CHR ''9'')) = Inl ValueError"
    by (simp add: py_int_def int_max_str_digits_def)
  ultimately show ?thesis by (simp add: int_refused_def strip_no_blank [OF nb])
qed

lemma collect_genre_long_digits:
  "collect_genre genres (replicate 4301 (CHR ''9'') # rest) = Inl ValueError"
  unfolding collect_genre_step using long_digits_refused by simp

lemma in_rating_range_Some:
  "in_rating_range f = Some x \<longleftrightarrow> f = Finite x \<and> 7.6 \<le> x \<and> x \<le> 9.3"
  by (cases f) auto

lemma collect_rating_step:
  "collect_rating float_of (line # rest) =
     (if lower (strip line) = ''skip'' then Inr (None, rest)
      else if rejected_rating float_of line then collect_rating float_of rest
      else case float_of (strip line) of
             Some rating \<Rightarrow> (case in_rating_range rating of Some x \<Rightarrow> Inr (Some x, rest)))"
  by (auto simp: rejected_rating_def Let_def split: option.splits)

lemma collect_rating_accepted:
  "collect_rating float_of ins = Inr (r, rest) \<Longrightarrow>
   \<exists>pre line. ins = pre @ line # rest \<and> (\<forall>l \<in> set pre. rejected_rating float_of l) \<and>
     (lower (strip line) = ''skip'' \<and> r = None \<or>
      (\<exists>x. lower (strip line) \<noteq> ''skip'' \<and> float_of (strip line) = Some (Finite x) \<and>
           7.6 \<le> x \<and> x \<le> 9.3 \<and> r = Some x))"
proof (induction ins)
  case Nil
  then show ?case by simp
next
  case (Cons a ins)
  show ?case
  proof (cases "rejected_rating float_of a")
    case True
    then have "lower (strip a) \<noteq> ''skip''" by (simp add: rejected_rating_def)
    with True Cons.prems have "collect_rating float_of ins = Inr (r, rest)"
      unfolding collect_rating_step by simp
    from Cons.IH [OF this] obtain pre line where
      ins: "ins = pre @ line # rest" and
      pre: "\<forall>l \<in> set pre. rejected_rating float_of l" and
      acc: "lower (strip line) = ''skip'' \<and> r = None \<or>
        (\<exists>x. lower (strip line) \<noteq> ''skip'' \<and> float_of (strip line) = Some (Finite x) \<and>
           7.6 \<le> x \<and> x \<le> 9.3 \<and> r = Some x)"
      by blast
    from ins have "a # ins = (a # pre) @ line # rest" by simp
    moreover from pre True have "\<forall>l \<in> set (a # pre). rejected_rating float_of l" by simp
    ultimately show ?thesis using acc by blast
  next
    case False
    have "rest = ins \<and> (lower (strip a) = ''skip'' \<and> r = None \<or>
        (\<exists>x. lower (strip a) \<noteq> ''skip'' \<and> float_of (strip a) = Some (Finite x) \<and>
           7.6 \<le> x \<and> x \<le> 9.3 \<and> r = Some x))"
    proof (cases "lower (strip a) = ''skip''")
      case True
      with Cons.prems show ?thesis unfolding collect_rating_step by simp
    next
      case ns: False
      with False obtain f x where f: "float_of (strip a) = Some f" "in_rating_range f = Some x"
        by (auto simp: rejected_rating_def split: option.splits)
      with ns False Cons.prems have "rest = ins \<and> r = Some x"
        unfolding collect_rating_step by simp
      with f ns show ?thesis by (auto simp: in_rating_range_Some)
    qed
    then have "a # ins = [] @ a # rest \<and>
        (\<forall>l \<in> set ([] :: string list). rejected_rating float_of l) \<and>
        (lower (strip a) = ''skip'' \<and> r = None \<or>
        (\<exists>x. lower (strip a) \<noteq> ''skip'' \<and> float_of (strip a) = Some (Finite x) \<and>
           7.6 \<le> x \<and> x \<le> 9.3 \<and> r = Some x))"
      by simp
    then show ?thesis by blast
  qed
qed

lemma strip_9_5: "strip ''9.5'' = ''9.5''" "lower ''9.5'' \<noteq> ''skip''"
  by code_simp+

lemma run_rating_8:
  "collect_rating demo_float [''9.5'', ''abc'', ''nan'', '' 8 ''] = Inr (Some 8, [])"
  by code_simp

lemma demo_float_9_5: "demo_float ''9.5'' = Some (Finite 9.5)"
  by (simp add: demo_float_def)

lemma rejected_abc: "rejected_rating demo_float ''abc''"
  by code_simp

section \<open>The genre catalog of a dataset without any genre\<close>

text \<open>
  Claim C7 says that the extraction of the genre catalog returns, for every valid dataset,
  the sorted sequence without duplicates of the trimmed pieces of the genre fields, and that
  a record with no genre is skipped. Where the call returns it does so
  (\<open>list_genres_catalog\<close>, \<open>split_comma_no_separator\<close>, \<open>join_split_comma\<close>,
  \<open>strip_decomp\<close>), and it returns as soon as one record has a genre
  (\<open>list_genres_returns\<close>). On a dataset whose records all lack a genre it skips nothing
  and returns no catalog: the call ends with \<open>AttributeError\<close>, here on the dataset of the
  one record H.
\<close>

theorem list_genres_all_missing:
  "Genre movie_H = None \<and> list_genres [movie_H] = Inl AttributeError"
  by (simp add: movie_H_def list_genres_def str_refused_def)

section \<open>The limit on the number of recommendations\<close>

text \<open>
  Claim C6, as the code has it. For every dataset, every constraint and every limit
  \<open>top_n\<close> of at least one, a call that returns has collected the first \<open>top_n\<close> matching
  rows of the shuffled frame and no more: the loop stops as soon as \<open>top_n\<close> matches are
  collected, so the sequence returned holds at most \<open>top_n\<close> recommendations.
\<close>

theorem limit_bounds_result:
  assumes "1 \<le> top_n"
    and "recommend_movies score rc shuffle df genre mood rating top_n = Inr res"
  shows "int (length (recs_of res)) \<le> top_n \<and>
         (\<exists>d. genre_filter rc genre df = Inr d \<and>
              recs_of res = take (nat top_n)
                (matches score (mood_polarity score mood) (shuffle (rating_filter rating d))))"
proof -
  from recommend_movies_Inr [OF assms(2)] obtain d where
    d: "genre_filter rc genre df = Inr d" and
    recs: "recs_of res = collect score (mood_polarity score mood) top_n []
             (shuffle (rating_filter rating d))"
    by blast
  from assms(1) have "int (length ([] :: recommendation list)) < top_n" by simp
  from collect_take [OF assms(1) this] recs
  have eq: "recs_of res = take (nat top_n)
              (matches score (mood_polarity score mood) (shuffle (rating_filter rating d)))"
    by simp
  then have "length (recs_of res) \<le> nat top_n" by simp
  with assms(1) have "int (length (recs_of res)) \<le> top_n" by linarith
  with d eq show ?thesis by blast
qed

theorem limit_bounds_result_witness:
  "(1::int) \<le> 2 \<and>
   recommend_movies demo_score no_regex id [movie_A, movie_B, movie_E] None None None 2 =
     Inr (Recommendations [(''A'', - 0.5), (''B'', 0.8)]) \<and>
   int (length (recs_of (Recommendations [(''A'', - 0.5), (''B'', 0.8)]))) \<le> 2"
proof -
  have one: "(1::int) \<le> 2" by simp
  from limit_bounds_result [OF one run_limit_two]
  have "int (length (recs_of (Recommendations [(''A'', - 0.5), (''B'', 0.8)]))) \<le> 2"
    by (rule conjunct1)
  with one run_limit_two show ?thesis by blast
qed

text \<open>
  With the limit 0 the test \<open>len(recommendations) == top_n\<close> fails after the first match
  and never holds again: both matching rows are returned.
\<close>

theorem limit_zero_counterexample:
  "recommend_movies demo_score no_regex id [movie_A, movie_B] None None None 0 =
     Inr (Recommendations [(''A'', - 0.5), (''B'', 0.8)]) \<and>
   \<not> int (length (recs_of (Recommendations [(''A'', - 0.5), (''B'', 0.8)]))) \<le> 0"
  by (simp add: recommend_movies_def movie_A_def movie_B_def demo_score_def mood_match_def)

section \<open>The outcome when nothing matches\<close>

text \<open>
  Claim C5, as the code has it. For every dataset, every constraint and every limit other
  than 0, a call that returns gives the message that nothing was found (a value, not an
  exception) if and only if no row that passed the genre and rating filters has an overview
  that passes the mood test; otherwise it returns the sequence of recommendations, which is
  not empty.
\<close>

theorem empty_result_iff_no_match:
  assumes "top_n \<noteq> 0"
    and "\<forall>xs. mset (shuffle xs) = mset xs"
    and "recommend_movies score rc shuffle df genre mood rating top_n = Inr res"
    and "genre_filter rc genre df = Inr d"
  shows "(res = Message no_recommendations \<longleftrightarrow>
            \<not> (\<exists>row \<in> set (rating_filter rating d). \<exists>ov. Overview row = Some ov \<and>
                  mood_match (mood_polarity score mood) (score ov))) \<and>
         (res \<noteq> Message no_recommendations \<longrightarrow>
            (\<exists>recs. recs \<noteq> [] \<and> res = Recommendations recs))"
proof -
  let ?mp = "mood_polarity score mood"
  let ?rows = "shuffle (rating_filter rating d)"
  from recommend_movies_Inr [OF assms(3)] assms(4)
  have recs: "recs_of res = collect score ?mp top_n [] ?rows"
    and msg: "res = Message no_recommendations \<longleftrightarrow> recs_of res = []"
    and some: "recs_of res \<noteq> [] \<longrightarrow> res = Recommendations (recs_of res)"
    by auto
  have "recs_of res = [] \<longleftrightarrow> matches score ?mp ?rows = []"
    using collect_nonzero [OF assms(1)] recs by simp
  also have "\<dots> \<longleftrightarrow> (\<forall>row \<in> set ?rows. \<forall>ov. Overview row = Some ov \<longrightarrow>
                          \<not> mood_match ?mp (score ov))"
    by (rule matches_empty_iff)
  also have "\<dots> \<longleftrightarrow> \<not> (\<exists>row \<in> set (rating_filter rating d). \<exists>ov. Overview row = Some ov \<and>
                  mood_match ?mp (score ov))"
    using shuffled_set [OF assms(2)] by auto
  finally have "recs_of res = [] \<longleftrightarrow> \<not> (\<exists>row \<in> set (rating_filter rating d). \<exists>ov.
                  Overview row = Some ov \<and> mood_match ?mp (score ov))" .
  with msg some show ?thesis by blast
qed

theorem empty_result_iff_no_match_witness:
  "(5::int) \<noteq> 0 \<and> (\<forall>xs :: dataset. mset (id xs) = mset xs) \<and>
   recommend_movies demo_score no_regex id [movie_A, movie_B] (Some ''Comedy'') (Some ''sad'') None 5 =
     Inr (Message no_recommendations) \<and>
   genre_filter no_regex (Some ''Comedy'') [movie_A, movie_B] = Inr [movie_B] \<and>
   \<not> (\<exists>row \<in> set (rating_filter None [movie_B]). \<exists>ov. Overview row = Some ov \<and>
         mood_match (mood_polarity demo_score (Some ''sad'')) (demo_score ov))"
proof -
  have five: "(5::int) \<noteq> 0" by simp
  have perm: "\<forall>xs :: dataset. mset (id xs) = mset xs" by simp
  from empty_result_iff_no_match [OF five perm run_sad_comedy genre_filter_comedy]
  have "\<not> (\<exists>row \<in> set (rating_filter None [movie_B]). \<exists>ov. Overview row = Some ov \<and>
         mood_match (mood_polarity demo_score (Some ''sad'')) (demo_score ov))"
    by blast
  with five perm run_sad_comedy genre_filter_comedy show ?thesis by blast
qed

text \<open>
  With the limit 0 the loop stops at the first row that has an overview and is not
  collected, so the second row, which matches, is never reached.
\<close>

theorem empty_result_zero_limit_counterexample:
  "recommend_movies demo_score no_regex id [movie_A, movie_B] None (Some ''happy'') None 0 =
     Inr (Message no_recommendations) \<and>
   movie_B \<in> set (rating_filter None [movie_A, movie_B]) \<and>
   genre_filter no_regex None [movie_A, movie_B] = Inr [movie_A, movie_B] \<and>
   Overview movie_B = Some ''A happy tale'' \<and>
   mood_match (mood_polarity demo_score (Some ''happy'')) (demo_score ''A happy tale'')"
  by (simp add: recommend_movies_def movie_A_def movie_B_def demo_score_def mood_match_def)

section \<open>The mood test\<close>

text \<open>
  Claim C1, as the code has it. Take any dataset, any call that returns and a row with an
  overview that the genre and rating filters kept. When the mood text is not empty, the row
  is in the result only if the product of the mood polarity, computed once from the mood
  text, and the overview polarity is positive or the overview polarity is 0; and a row for
  which this holds is in the result whenever the result holds fewer recommendations than the
  limit, that is, whenever the limit did not stop the loop. When the mood text is absent or
  empty, every such row is in the result under the same proviso. For a limit of at least
  one the result is the first \<open>top_n\<close> rows that pass, in the order of the shuffle.
\<close>

theorem mood_filter_inclusion:
  assumes perm: "\<forall>xs. mset (shuffle xs) = mset xs"
    and run: "recommend_movies score rc shuffle df genre mood rating top_n = Inr res"
    and narrowed: "genre_filter rc genre df = Inr d"
    and row: "row \<in> set (rating_filter rating d)" "Overview row = Some ov"
  shows "(\<forall>m. mood = Some m \<and> m \<noteq> [] \<longrightarrow>
            ((Series_Title row, score ov) \<in> set (recs_of res) \<longrightarrow>
               score m * score ov > 0 \<or> score ov = 0) \<and>
            ((score m * score ov > 0 \<or> score ov = 0) \<and> int (length (recs_of res)) < top_n \<longrightarrow>
               (Series_Title row, score ov) \<in> set (recs_of res))) \<and>
         ((mood = None \<or> mood = Some []) \<and> int (length (recs_of res)) < top_n \<longrightarrow>
            (Series_Title row, score ov) \<in> set (recs_of res)) \<and>
         (1 \<le> top_n \<longrightarrow>
            recs_of res = take (nat top_n)
              (matches score (mood_polarity score mood) (shuffle (rating_filter rating d))))"
proof (intro conjI allI impI)
  fix m assume m: "mood = Some m \<and> m \<noteq> []"
  assume "(Series_Title row, score ov) \<in> set (recs_of res)"
  from result_passes [OF run this] m
  show "score m * score ov > 0 \<or> score ov = 0" by (simp add: mood_match_def)
next
  fix m assume m: "mood = Some m \<and> m \<noteq> []"
  assume h: "(score m * score ov > 0 \<or> score ov = 0) \<and> int (length (recs_of res)) < top_n"
  with m have "mood_match (mood_polarity score mood) (score ov)" by (simp add: mood_match_def)
  from passing_row_in_short_result [OF perm run narrowed row this] h
  show "(Series_Title row, score ov) \<in> set (recs_of res)" by blast
next
  assume h: "(mood = None \<or> mood = Some []) \<and> int (length (recs_of res)) < top_n"
  then have "mood_match (mood_polarity score mood) (score ov)" by (auto simp: mood_match_def)
  from passing_row_in_short_result [OF perm run narrowed row this] h
  show "(Series_Title row, score ov) \<in> set (recs_of res)" by blast
next
  assume pos: "1 \<le> top_n"
  from recommend_movies_Inr [OF run] narrowed
  have "recs_of res = collect score (mood_polarity score mood) top_n []
          (shuffle (rating_filter rating d))" by auto
  with collect_take [OF pos, of "[]" score "mood_polarity score mood"
      "shuffle (rating_filter rating d)"] pos
  show "recs_of res = take (nat top_n)
          (matches score (mood_polarity score mood) (shuffle (rating_filter rating d)))"
    by simp
qed

theorem mood_filter_inclusion_witness:
  "(\<forall>xs :: dataset. mset (id xs) = mset xs) \<and>
   recommend_movies demo_score no_regex id [movie_A, movie_B] None (Some ''happy'') None 5 =
     Inr (Recommendations [(''B'', 0.8)]) \<and>
   genre_filter no_regex None [movie_A, movie_B] = Inr [movie_A, movie_B] \<and>
   movie_B \<in> set (rating_filter None [movie_A, movie_B]) \<and>
   Overview movie_B = Some ''A happy tale'' \<and>
   ''happy'' \<noteq> [] \<and>
   demo_score ''happy'' * demo_score ''A happy tale'' > 0 \<and>
   int (length (recs_of (Recommendations [(''B'', 0.8)]))) < 5 \<and>
   (Series_Title movie_B, demo_score ''A happy tale'') \<in> set (recs_of (Recommendations [(''B'', 0.8)])) \<and>
   recommend_movies demo_score no_regex id [movie_A, movie_B] None (Some []) None 5 =
     Inr (Recommendations [(''A'', - 0.5), (''B'', 0.8)]) \<and>
   int (length (recs_of (Recommendations [(''A'', - 0.5), (''B'', 0.8)]))) < 5 \<and>
   (Series_Title movie_B, demo_score ''A happy tale'')
     \<in> set (recs_of (Recommendations [(''A'', - 0.5), (''B'', 0.8)]))"
proof -
  have perm: "\<forall>xs :: dataset. mset (id xs) = mset xs" by simp
  have narrowed: "genre_filter no_regex None [movie_A, movie_B] = Inr [movie_A, movie_B]"
    by simp
  have pos: "demo_score ''happy'' * demo_score ''A happy tale'' > 0"
    by (simp add: demo_score_values)
  have ne: "''happy'' \<noteq> []" by simp
  have short1: "int (length (recs_of (Recommendations [(''B'', 0.8 :: real)]))) < 5" by simp
  have short2: "int (length (recs_of (Recommendations [(''A'', - 0.5 :: real), (''B'', 0.8)]))) < 5"
    by simp
  from mood_filter_inclusion [OF perm run_happy_limit_five narrowed movie_B_row(1,2)]
    pos ne short1
  have one: "(Series_Title movie_B, demo_score ''A happy tale'')
               \<in> set (recs_of (Recommendations [(''B'', 0.8)]))"
    by blast
  from mood_filter_inclusion [OF perm run_empty_mood narrowed movie_B_row(1,2)] short2
  have two: "(Series_Title movie_B, demo_score ''A happy tale'')
               \<in> set (recs_of (Recommendations [(''A'', - 0.5), (''B'', 0.8)]))"
    by blast
  from perm run_happy_limit_five narrowed movie_B_row(1,2) ne pos short1 one
    run_empty_mood short2 two
  show ?thesis by (intro conjI)
qed

text \<open>
  The loop stops at the limit: with the limit 1 the row E, whose overview has the sign of
  the mood, is not reached.
\<close>

theorem mood_filter_limit_counterexample:
  "recommend_movies demo_score no_regex id [movie_B, movie_E] None (Some ''happy'') None 1 =
     Inr (Recommendations [(''B'', 0.8)]) \<and>
   genre_filter no_regex None [movie_B, movie_E] = Inr [movie_B, movie_E] \<and>
   movie_E \<in> set (rating_filter None [movie_B, movie_E]) \<and>
   Overview movie_E = Some ''A happy tale'' \<and> ''happy'' \<noteq> [] \<and>
   demo_score ''happy'' * demo_score ''A happy tale'' > 0 \<and>
   (Series_Title movie_E, demo_score ''A happy tale'')
     \<notin> set (recs_of (Recommendations [(''B'', 0.8)]))"
  by (simp add: recommend_movies_def movie_B_def movie_E_def demo_score_def mood_match_def)

section \<open>Neutral polarities\<close>

text \<open>
  Claim C4, as the code has it. For every row with an overview that the genre and rating
  filters kept, and every mood text that is not empty: the row is in the result whenever
  its overview polarity has the sign of the mood polarity and that sign is not zero, or its
  overview polarity is 0, provided that the result holds fewer recommendations than the
  limit, that is, that the limit did not stop the loop. A neutral mood does not pass a row:
  when the mood polarity is 0 and the overview polarity is not, the row is not in the
  result.
\<close>

theorem mood_sign_or_neutral_overview:
  assumes perm: "\<forall>xs. mset (shuffle xs) = mset xs"
    and run: "recommend_movies score rc shuffle df genre (Some m) rating top_n = Inr res"
    and mood: "m \<noteq> []"
    and narrowed: "genre_filter rc genre df = Inr d"
    and row: "row \<in> set (rating_filter rating d)" "Overview row = Some ov"
  shows "(((sgn (score m) = sgn (score ov) \<and> score m \<noteq> 0) \<or> score ov = 0) \<and>
            int (length (recs_of res)) < top_n \<longrightarrow>
            (Series_Title row, score ov) \<in> set (recs_of res)) \<and>
         (score m = 0 \<and> score ov \<noteq> 0 \<longrightarrow> (Series_Title row, score ov) \<notin> set (recs_of res))"
proof (intro conjI impI)
  have mp: "mood_polarity score (Some m) = Some (score m)" using mood by simp
  assume h: "((sgn (score m) = sgn (score ov) \<and> score m \<noteq> 0) \<or> score ov = 0) \<and>
            int (length (recs_of res)) < top_n"
  then have "score m * score ov > 0 \<or> score ov = 0" by (simp add: same_sign_iff)
  then have "mood_match (mood_polarity score (Some m)) (score ov)"
    unfolding mp by (simp add: mood_match_def)
  from passing_row_in_short_result [OF perm run narrowed row this] h
  show "(Series_Title row, score ov) \<in> set (recs_of res)" by blast
next
  have mp: "mood_polarity score (Some m) = Some (score m)" using mood by simp
  assume z: "score m = 0 \<and> score ov \<noteq> 0"
  show "(Series_Title row, score ov) \<notin> set (recs_of res)"
  proof
    assume "(Series_Title row, score ov) \<in> set (recs_of res)"
    from result_passes [OF run this] have "score m * score ov > 0 \<or> score ov = 0"
      unfolding mp by (simp add: mood_match_def)
    with z show False by simp
  qed
qed

theorem mood_sign_or_neutral_overview_witness:
  "(\<forall>xs :: dataset. mset (id xs) = mset xs) \<and>
   recommend_movies demo_score no_regex id [movie_A, movie_B] None (Some ''happy'') None 5 =
     Inr (Recommendations [(''B'', 0.8)]) \<and>
   ''happy'' \<noteq> [] \<and>
   genre_filter no_regex None [movie_A, movie_B] = Inr [movie_A, movie_B] \<and>
   movie_B \<in> set (rating_filter None [movie_A, movie_B]) \<and>
   Overview movie_B = Some ''A happy tale'' \<and>
   sgn (demo_score ''happy'') = sgn (demo_score ''A happy tale'') \<and> demo_score ''happy'' \<noteq> 0 \<and>
   int (length (recs_of (Recommendations [(''B'', 0.8)]))) < 5 \<and>
   (Series_Title movie_B, demo_score ''A happy tale'') \<in> set (recs_of (Recommendations [(''B'', 0.8)]))"
proof -
  have perm: "\<forall>xs :: dataset. mset (id xs) = mset xs" by simp
  have narrowed: "genre_filter no_regex None [movie_A, movie_B] = Inr [movie_A, movie_B]"
    by simp
  have ne: "''happy'' \<noteq> []" by simp
  have sign: "sgn (demo_score ''happy'') = sgn (demo_score ''A happy tale'')"
    and nz: "demo_score ''happy'' \<noteq> 0"
    by (simp_all add: demo_score_values)
  have short: "int (length (recs_of (Recommendations [(''B'', 0.8 :: real)]))) < 5" by simp
  from mood_sign_or_neutral_overview
         [OF perm run_happy_limit_five ne narrowed movie_B_row(1,2)] sign nz short
  have "(Series_Title movie_B, demo_score ''A happy tale'')
          \<in> set (recs_of (Recommendations [(''B'', 0.8)]))"
    by blast
  with perm run_happy_limit_five ne narrowed movie_B_row(1,2) sign nz short
  show ?thesis by (intro conjI)
qed

text \<open>
  A mood text without any word of sentiment has the polarity 0; the test
  \<open>mood_polarity * polarity > 0\<close> then fails for every row, and a row whose overview
  polarity is not 0 is not collected.
\<close>

theorem neutral_mood_counterexample:
  "recommend_movies demo_score no_regex id [movie_A, movie_B] None (Some ''meh'') None 5 =
     Inr (Message no_recommendations) \<and>
   recs_of (Message no_recommendations) = [] \<and>
   demo_score ''meh'' = 0 \<and> ''meh'' \<noteq> [] \<and>
   Overview movie_A = Some ''A sad story'' \<and> demo_score ''A sad story'' \<noteq> 0"
  by (simp add: recommend_movies_def movie_A_def movie_B_def demo_score_def mood_match_def)

section \<open>The rating and the genre of the recommended movies\<close>

text \<open>
  Claim C2, as the code has it. For every dataset and every combination of constraints,
  every recommendation in the sequence returned comes from a record of the dataset whose
  rating is at least \<open>min_rating\<close> when a \<open>min_rating\<close> other than 0 is given, and whose
  genre field contains the queried genre as a substring, letter case ignored, when a genre is
  given that is not empty and has no regular expression metacharacter.
\<close>

theorem result_meets_rating_and_genre:
  assumes perm: "\<forall>xs. mset (shuffle xs) = mset xs"
    and run: "recommend_movies score rc shuffle df genre mood rating top_n = Inr res"
    and mem: "(t, p) \<in> set (recs_of res)"
  shows "\<exists>row \<in> set df.
           (\<exists>ov. Overview row = Some ov \<and> t = Series_Title row \<and> p = score ov) \<and>
           (\<forall>x. rating = Some x \<and> x \<noteq> 0 \<longrightarrow> x \<le> IMDB_Rating row) \<and>
           (\<forall>g. genre = Some g \<and> g \<noteq> [] \<and> plain_pattern g \<longrightarrow>
                (\<exists>s. Genre row = Some s \<and> sublist (lower g) (lower s)))"
proof -
  from result_rows [OF perm run mem] obtain d row ov where
    d: "genre_filter rc genre df = Inr d" and
    row: "row \<in> set (rating_filter rating d)" and
    ov: "Overview row = Some ov" "t = Series_Title row" "p = score ov"
    by blast
  from row have in_d: "row \<in> set d"
    and rate: "\<forall>x. rating = Some x \<and> x \<noteq> 0 \<longrightarrow> x \<le> IMDB_Rating row"
    by (simp_all add: set_rating_filter)
  from in_d d have in_df: "row \<in> set df" using genre_filter_subset by blast
  have "\<forall>g. genre = Some g \<and> g \<noteq> [] \<and> plain_pattern g \<longrightarrow>
            (\<exists>s. Genre row = Some s \<and> sublist (lower g) (lower s))"
    using d in_d genre_filter_contains by blast
  with in_df ov rate show ?thesis by blast
qed

theorem result_meets_rating_and_genre_witness:
  "(\<forall>xs :: dataset. mset (id xs) = mset xs) \<and>
   recommend_movies demo_score no_regex id [movie_A, movie_B, movie_E]
     (Some ''drama'') None (Some 8.2) 5 = Inr (Recommendations [(''E'', 0.8)]) \<and>
   (''E'', 0.8) \<in> set (recs_of (Recommendations [(''E'', 0.8)])) \<and>
   (8.2 :: real) \<noteq> 0 \<and> ''drama'' \<noteq> [] \<and> plain_pattern ''drama'' \<and>
   (\<exists>row \<in> set [movie_A, movie_B, movie_E].
      (\<exists>ov. Overview row = Some ov \<and> ''E'' = Series_Title row \<and> 0.8 = demo_score ov) \<and>
      8.2 \<le> IMDB_Rating row \<and>
      (\<exists>s. Genre row = Some s \<and> sublist (lower ''drama'') (lower s)))"
proof -
  have perm: "\<forall>xs :: dataset. mset (id xs) = mset xs" by simp
  have mem: "(''E'', 0.8) \<in> set (recs_of (Recommendations [(''E'', 0.8)]))" by simp
  have nz: "(8.2 :: real) \<noteq> 0" and ne: "''drama'' \<noteq> []" by simp_all
  from result_meets_rating_and_genre [OF perm run_drama_rated mem] nz ne plain_drama(1)
  have "\<exists>row \<in> set [movie_A, movie_B, movie_E].
      (\<exists>ov. Overview row = Some ov \<and> ''E'' = Series_Title row \<and> 0.8 = demo_score ov) \<and>
      8.2 \<le> IMDB_Rating row \<and>
      (\<exists>s. Genre row = Some s \<and> sublist (lower ''drama'') (lower s))"
    by blast
  with perm run_drama_rated mem nz ne plain_drama(1) show ?thesis by (intro conjI)
qed

text \<open>
  The test \<open>if rating:\<close> is false for the float 0, so a minimum rating of 0 filters nothing:
  a record rated below 0 is returned.
\<close>

theorem zero_rating_counterexample:
  "recommend_movies demo_score no_regex id [movie_D] None None (Some 0) 5 =
     Inr (Recommendations [(''D'', 0)]) \<and>
   Series_Title movie_D = ''D'' \<and> \<not> 0 \<le> IMDB_Rating movie_D"
  by (simp add: recommend_movies_def movie_D_def demo_score_def mood_match_def)

section \<open>Records without a genre\<close>

text \<open>
  Claim C10. For every dataset and every genre constraint that is not empty, a call that
  returns recommends only records whose genre field is present: the genre filter drops every
  record with a missing genre. Without a genre constraint (none, or the empty text) the
  genre filter keeps the whole dataset, the records with a missing genre included.
\<close>

theorem missing_genre_excluded:
  assumes perm: "\<forall>xs. mset (shuffle xs) = mset xs"
    and given: "g \<noteq> []"
    and run: "recommend_movies score rc shuffle df (Some g) mood rating top_n = Inr res"
  shows "(\<forall>(t, p) \<in> set (recs_of res). \<exists>row \<in> set df. Genre row \<noteq> None \<and>
             t = Series_Title row \<and> (\<exists>ov. Overview row = Some ov \<and> p = score ov)) \<and>
         (\<exists>d. genre_filter rc (Some g) df = Inr d \<and> set d \<subseteq> set df \<and>
              (\<forall>row \<in> set d. Genre row \<noteq> None)) \<and>
         genre_filter rc None df = Inr df \<and> genre_filter rc (Some []) df = Inr df"
proof (intro conjI)
  show "\<forall>(t, p) \<in> set (recs_of res). \<exists>row \<in> set df. Genre row \<noteq> None \<and>
             t = Series_Title row \<and> (\<exists>ov. Overview row = Some ov \<and> p = score ov)"
  proof (clarify)
    fix t p assume "(t, p) \<in> set (recs_of res)"
    from result_rows [OF perm run this] obtain d row ov where
      d: "genre_filter rc (Some g) df = Inr d" and
      row: "row \<in> set (rating_filter rating d)" and
      ov: "Overview row = Some ov" "t = Series_Title row" "p = score ov"
      by blast
    from row have in_d: "row \<in> set d" by (simp add: set_rating_filter)
    with d have "row \<in> set df" using genre_filter_subset by blast
    moreover from d given in_d have "Genre row \<noteq> None" by (rule genre_filter_not_missing)
    ultimately show "\<exists>row \<in> set df. Genre row \<noteq> None \<and>
             t = Series_Title row \<and> (\<exists>ov. Overview row = Some ov \<and> p = score ov)"
      using ov by blast
  qed
next
  from recommend_movies_Inr [OF run] obtain d where d: "genre_filter rc (Some g) df = Inr d"
    by blast
  with given have "\<forall>row \<in> set d. Genre row \<noteq> None"
    using genre_filter_not_missing by blast
  with d show "\<exists>d. genre_filter rc (Some g) df = Inr d \<and> set d \<subseteq> set df \<and>
              (\<forall>row \<in> set d. Genre row \<noteq> None)"
    using genre_filter_subset by blast
qed simp_all

theorem missing_genre_excluded_witness:
  "(\<forall>xs :: dataset. mset (id xs) = mset xs) \<and> ''drama'' \<noteq> [] \<and>
   recommend_movies demo_score no_regex id [movie_D, movie_E] (Some ''drama'') None None 5 =
     Inr (Recommendations [(''E'', 0.8)]) \<and>
   (''E'', 0.8) \<in> set (recs_of (Recommendations [(''E'', 0.8)])) \<and>
   Genre movie_D = None \<and>
   (\<exists>row \<in> set [movie_D, movie_E]. Genre row \<noteq> None \<and> ''E'' = Series_Title row \<and>
      (\<exists>ov. Overview row = Some ov \<and> 0.8 = demo_score ov)) \<and>
   genre_filter no_regex None [movie_D, movie_E] = Inr [movie_D, movie_E]"
proof -
  have perm: "\<forall>xs :: dataset. mset (id xs) = mset xs" by simp
  have ne: "''drama'' \<noteq> []" by simp
  have mem: "(''E'', 0.8) \<in> set (recs_of (Recommendations [(''E'', 0.8)]))" by simp
  have missing: "Genre movie_D = None" by (simp add: movie_D_def)
  note inst = missing_genre_excluded [OF perm ne run_drama_missing_genre]
  from inst mem
  have ex: "\<exists>row \<in> set [movie_D, movie_E]. Genre row \<noteq> None \<and> ''E'' = Series_Title row \<and>
      (\<exists>ov. Overview row = Some ov \<and> 0.8 = demo_score ov)"
    by blast
  from inst have keep: "genre_filter no_regex None [movie_D, movie_E] = Inr [movie_D, movie_E]"
    by blast
  from perm ne run_drama_missing_genre mem missing ex keep show ?thesis by (intro conjI)
qed

section \<open>The scenario of three records\<close>

text \<open>
  Claim C3. On the dataset of the three records A (Drama, "A sad story", 8.0), B (Comedy,
  "A happy tale", 7.0) and C (Drama, no overview, 9.0), the call with the genre "Drama", the
  minimum rating 7.6 and no mood keeps the candidates A and C; the loop skips C, which has
  no overview, so that, whatever the order of the shuffle, the polarity function and the
  limit, the result is the one recommendation of A.
\<close>

theorem scenario_drama_min_rating:
  assumes "mset (shuffle [movie_A, movie_C]) = mset [movie_A, movie_C]"
  shows "genre_filter rc (Some ''Drama'') [movie_A, movie_B, movie_C] = Inr [movie_A, movie_C] \<and>
         rating_filter (Some 7.6) [movie_A, movie_C] = [movie_A, movie_C] \<and>
         Overview movie_C = None \<and>
         matches score None [movie_C] = [] \<and>
         recommend_movies score rc shuffle [movie_A, movie_B, movie_C]
             (Some ''Drama'') None (Some 7.6) top_n =
           Inr (Recommendations [(''A'', score ''A sad story'')])"
proof -
  have g: "genre_filter rc (Some ''Drama'') [movie_A, movie_B, movie_C] = Inr [movie_A, movie_C]"
    by (simp add: movie_A_def movie_B_def movie_C_def str_contains_def str_refused_def
        plain_drama lower_def lower_char_def is_upper_def)
  have r: "rating_filter (Some 7.6) [movie_A, movie_C] = [movie_A, movie_C]"
    by (simp add: movie_A_def movie_C_def)
  have c: "Overview movie_C = None" by (simp add: movie_C_def)
  have m: "matches score None [movie_C] = []" by (simp add: matches_def c)
  from perm_pair [OF assms]
  have "collect score None top_n [] (shuffle [movie_A, movie_C]) = [(''A'', score ''A sad story'')]"
  proof
    assume "shuffle [movie_A, movie_C] = [movie_A, movie_C]"
    then show ?thesis by (simp add: movie_A_def movie_C_def mood_match_def Let_def)
  next
    assume "shuffle [movie_A, movie_C] = [movie_C, movie_A]"
    then show ?thesis by (simp add: movie_A_def movie_C_def mood_match_def Let_def)
  qed
  then have "recommend_movies score rc shuffle [movie_A, movie_B, movie_C]
             (Some ''Drama'') None (Some 7.6) top_n =
           Inr (Recommendations [(''A'', score ''A sad story'')])"
    using g r by (simp add: recommend_movies_def del: genre_filter.simps rating_filter.simps)
  with g r c m show ?thesis by (intro conjI)
qed

theorem scenario_drama_min_rating_witness:
  "mset (rev [movie_A, movie_C]) = mset [movie_A, movie_C] \<and>
   rev [movie_A, movie_C] = [movie_C, movie_A] \<and>
   recommend_movies demo_score no_regex rev [movie_A, movie_B, movie_C]
       (Some ''Drama'') None (Some 7.6) 5 =
     Inr (Recommendations [(''A'', demo_score ''A sad story'')])"
proof -
  have perm: "mset (rev [movie_A, movie_C]) = mset [movie_A, movie_C]" by simp
  from scenario_drama_min_rating
         [where shuffle = rev and rc = no_regex and score = demo_score and top_n = 5, OF perm]
  have "recommend_movies demo_score no_regex rev [movie_A, movie_B, movie_C]
       (Some ''Drama'') None (Some 7.6) 5 =
     Inr (Recommendations [(''A'', demo_score ''A sad story'')])"
    by blast
  moreover have "rev [movie_A, movie_C] = [movie_C, movie_A]" by simp
  ultimately show ?thesis using perm by (intro conjI)
qed

section \<open>Collecting the genre\<close>

text \<open>
  Claim C9, as the code has it. The loop that collects the genre accepts two forms of
  input: a 1-based index into the catalog, which is accepted and yields the entry at that
  index, or a name whose title-cased form is an entry of the catalog, which yields that
  entry; an accepted name equals the entry it yields up to letter case. Every other input on
  which \<open>int\<close> does not raise is turned down and the loop asks again. In particular, for
  every entry of the catalog that is in title case and every input equal to it up to letter
  case, which is not an index into the catalog and on which \<open>int\<close> does not raise, the
  input is accepted and yields the entry.
\<close>

theorem collect_genre_forms:
  "(collect_genre genres ins = Inr (g, rest) \<longrightarrow>
      g \<in> set genres \<and>
      (\<exists>pre line. ins = pre @ line # rest \<and> (\<forall>l \<in> set pre. rejected_genre genres l) \<and>
         (valid_index genres (strip line) \<and> g = genres ! (int_of_digits (strip line) - 1) \<or>
          \<not> valid_index genres (strip line) \<and> g = title (strip line) \<and>
            lower g = lower (strip line)))) \<and>
   (valid_index genres (strip line) \<longrightarrow>
      collect_genre genres (line # others) =
        Inr (genres ! (int_of_digits (strip line) - 1), others)) \<and>
   (rejected_genre genres line \<longrightarrow>
      collect_genre genres (line # others) = collect_genre genres others) \<and>
   (e \<in> set genres \<and> title e = e \<and> lower (strip line) = lower e \<and>
      \<not> valid_index genres (strip line) \<and> \<not> int_refused (strip line) \<longrightarrow>
      collect_genre genres (line # others) = Inr (e, others))"
proof (intro conjI impI)
  assume run: "collect_genre genres ins = Inr (g, rest)"
  from collect_genre_accepted [OF run] obtain pre l where
    ins: "ins = pre @ l # rest" and
    pre: "\<forall>l \<in> set pre. rejected_genre genres l" and
    acc: "valid_index genres (strip l) \<and> g = genres ! (int_of_digits (strip l) - 1) \<or>
          \<not> valid_index genres (strip l) \<and> g = title (strip l) \<and> g \<in> set genres"
    by blast
  from acc show "g \<in> set genres" using valid_index_in_catalog by blast
  from acc have "valid_index genres (strip l) \<and> g = genres ! (int_of_digits (strip l) - 1) \<or>
          \<not> valid_index genres (strip l) \<and> g = title (strip l) \<and> lower g = lower (strip l)"
    using lower_title by blast
  with ins pre show "\<exists>pre line. ins = pre @ line # rest \<and>
         (\<forall>l \<in> set pre. rejected_genre genres l) \<and>
         (valid_index genres (strip line) \<and> g = genres ! (int_of_digits (strip line) - 1) \<or>
          \<not> valid_index genres (strip line) \<and> g = title (strip line) \<and>
            lower g = lower (strip line))"
    by blast
next
  assume v: "valid_index genres (strip line)"
  then have "\<not> int_refused (strip line)" by (rule valid_index_not_refused)
  with v show "collect_genre genres (line # others) =
        Inr (genres ! (int_of_digits (strip line) - 1), others)"
    unfolding collect_genre_step by simp
next
  assume "rejected_genre genres line"
  then show "collect_genre genres (line # others) = collect_genre genres others"
    unfolding collect_genre_step rejected_genre_def by simp
next
  assume h: "e \<in> set genres \<and> title e = e \<and> lower (strip line) = lower e \<and>
      \<not> valid_index genres (strip line) \<and> \<not> int_refused (strip line)"
  then have "title (strip line) = title e" using title_cong by blast
  with h have "title (strip line) = e" by simp
  with h show "collect_genre genres (line # others) = Inr (e, others)"
    unfolding collect_genre_step by simp
qed

theorem collect_genre_forms_witness:
  "''Sci-Fi'' \<in> set [''Action'', ''Drama'', ''Sci-Fi''] \<and> title ''Sci-Fi'' = ''Sci-Fi'' \<and>
   lower (strip ''  sci-fi '') = lower ''Sci-Fi'' \<and>
   \<not> valid_index [''Action'', ''Drama'', ''Sci-Fi''] (strip ''  sci-fi '') \<and>
   \<not> int_refused (strip ''  sci-fi '') \<and>
   collect_genre [''Action'', ''Drama'', ''Sci-Fi''] [''  sci-fi ''] = Inr (''Sci-Fi'', []) \<and>
   valid_index [''Action'', ''Drama'', ''Sci-Fi''] (strip '' 2'') \<and>
   collect_genre [''Action'', ''Drama'', ''Sci-Fi''] ['' 2'', ''x''] = Inr (''Drama'', [''x'']) \<and>
   rejected_genre [''Action'', ''Drama'', ''Sci-Fi''] ''7'' \<and>
   collect_genre [''Action'', ''Drama'', ''Sci-Fi''] [''7'', '' 2''] =
     collect_genre [''Action'', ''Drama'', ''Sci-Fi''] ['' 2'']"
proof -
  have mem: "''Sci-Fi'' \<in> set [''Action'', ''Drama'', ''Sci-Fi'']" by simp
  from collect_genre_forms [where genres = "[''Action'', ''Drama'', ''Sci-Fi'']"
      and line = "''  sci-fi ''" and others = "[]" and e = "''Sci-Fi''"]
    mem sci_fi_typed
  have name: "collect_genre [''Action'', ''Drama'', ''Sci-Fi''] [''  sci-fi ''] = Inr (''Sci-Fi'', [])"
    by blast
  from collect_genre_forms [where genres = "[''Action'', ''Drama'', ''Sci-Fi'']"
      and line = "'' 2''" and others = "[''x'']"] index_typed(1)
  have "collect_genre [''Action'', ''Drama'', ''Sci-Fi''] ['' 2'', ''x''] =
      Inr ([''Action'', ''Drama'', ''Sci-Fi''] ! (int_of_digits (strip '' 2'') - 1), [''x''])"
    by blast
  then have index: "collect_genre [''Action'', ''Drama'', ''Sci-Fi''] ['' 2'', ''x''] =
      Inr (''Drama'', [''x''])"
    unfolding index_typed(2) .
  from collect_genre_forms [where genres = "[''Action'', ''Drama'', ''Sci-Fi'']"
      and line = "''7''" and others = "['' 2'']"] rejected_typed
  have again: "collect_genre [''Action'', ''Drama'', ''Sci-Fi''] [''7'', '' 2''] =
     collect_genre [''Action'', ''Drama'', ''Sci-Fi''] ['' 2'']"
    by blast
  from mem sci_fi_typed name index_typed(1) index rejected_typed again
  show ?thesis by (intro conjI)
qed

text \<open>
  The typed name is compared in title case. When the dataset writes a genre in lower case,
  the catalog holds that entry, and typing it exactly is turned down: the only line is
  consumed and the loop asks for another.
\<close>

theorem lowercase_catalog_counterexample:
  "list_genres [movie_F] = Inr [''drama''] \<and>
   lower (strip ''drama'') = lower ''drama'' \<and>
   collect_genre [''drama''] [''drama''] = Inl EOFError"
  by code_simp

section \<open>Collecting the minimum rating\<close>

text \<open>
  Claim C8, as the code has it. The loop that collects the rating ends, other than by the
  end of the input, only on a line that reads "skip" once trimmed and put in lower case,
  which gives no rating constraint, or on a line that \<open>float\<close> reads as a number between
  7.6 and 9.3, bounds included, which gives that number; every line before it was turned
  down. A line that is not "skip" and is not a number, or is a number out of the range (as
  "9.5" is), is turned down and the loop asks again. So the rating constraint passed on is
  absent or within 7.6 and 9.3.
\<close>

theorem collect_rating_outcome:
  "(collect_rating float_of ins = Inr (r, rest) \<longrightarrow>
      (r = None \<or> (\<exists>x. r = Some x \<and> 7.6 \<le> x \<and> x \<le> 9.3)) \<and>
      (\<exists>pre line. ins = pre @ line # rest \<and> (\<forall>l \<in> set pre. rejected_rating float_of l) \<and>
         (lower (strip line) = ''skip'' \<and> r = None \<or>
          (\<exists>x. lower (strip line) \<noteq> ''skip'' \<and> float_of (strip line) = Some (Finite x) \<and>
               7.6 \<le> x \<and> x \<le> 9.3 \<and> r = Some x)))) \<and>
   (rejected_rating float_of line \<longrightarrow>
      collect_rating float_of (line # others) = collect_rating float_of others) \<and>
   (float_of ''9.5'' = Some (Finite 9.5) \<longrightarrow>
      collect_rating float_of (''9.5'' # others) = collect_rating float_of others)"
proof (intro conjI impI)
  assume run: "collect_rating float_of ins = Inr (r, rest)"
  from collect_rating_accepted [OF run]
  show "\<exists>pre line. ins = pre @ line # rest \<and> (\<forall>l \<in> set pre. rejected_rating float_of l) \<and>
         (lower (strip line) = ''skip'' \<and> r = None \<or>
          (\<exists>x. lower (strip line) \<noteq> ''skip'' \<and> float_of (strip line) = Some (Finite x) \<and>
               7.6 \<le> x \<and> x \<le> 9.3 \<and> r = Some x))" .
  then show "r = None \<or> (\<exists>x. r = Some x \<and> 7.6 \<le> x \<and> x \<le> 9.3)" by blast
next
  assume rej: "rejected_rating float_of line"
  then have "lower (strip line) \<noteq> ''skip''" by (simp add: rejected_rating_def)
  with rej show "collect_rating float_of (line # others) = collect_rating float_of others"
    unfolding collect_rating_step by simp
next
  assume f: "float_of ''9.5'' = Some (Finite 9.5)"
  have "rejected_rating float_of ''9.5''"
    unfolding rejected_rating_def strip_9_5(1) using f strip_9_5(2) by simp
  then show "collect_rating float_of (''9.5'' # others) = collect_rating float_of others"
    unfolding collect_rating_step using strip_9_5 by simp
qed

theorem collect_rating_outcome_witness:
  "collect_rating demo_float [''9.5'', ''abc'', ''nan'', '' 8 ''] = Inr (Some 8, []) \<and>
   (\<exists>x. Some (8::real) = Some x \<and> 7.6 \<le> x \<and> x \<le> 9.3) \<and>
   rejected_rating demo_float ''abc'' \<and>
   collect_rating demo_float [''abc'', ''nan''] = collect_rating demo_float [''nan''] \<and>
   demo_float ''9.5'' = Some (Finite 9.5) \<and>
   collect_rating demo_float [''9.5'', ''abc''] = collect_rating demo_float [''abc'']"
proof -
  from collect_rating_outcome [where float_of = demo_float
      and ins = "[''9.5'', ''abc'', ''nan'', '' 8 '']" and r = "Some 8" and rest = "[]"]
    run_rating_8
  have range: "\<exists>x. Some (8::real) = Some x \<and> 7.6 \<le> x \<and> x \<le> 9.3" by blast
  from collect_rating_outcome [where float_of = demo_float and line = "''abc''"
      and others = "[''nan'']"] rejected_abc
  have again: "collect_rating demo_float [''abc'', ''nan''] = collect_rating demo_float [''nan'']"
    by blast
  from collect_rating_outcome [where float_of = demo_float and others = "[''abc'']"]
    demo_float_9_5
  have nine: "collect_rating demo_float [''9.5'', ''abc''] = collect_rating demo_float [''abc'']"
    by blast
  from run_rating_8 range rejected_abc again demo_float_9_5 nine show ?thesis by (intro conjI)
qed

text \<open>
  The comparison is \<open>rating_input.lower() == 'skip'\<close>: the line "SKIP", which is not the
  text "skip" and not a number, ends the loop with no rating constraint.
\<close>

theorem skip_letter_case_counterexample:
  "collect_rating demo_float [''SKIP''] = Inr (None, []) \<and>
   ''SKIP'' \<noteq> ''skip'' \<and> demo_float ''SKIP'' = None"
  by code_simp

end
